theory Spec2Isabelle
  imports Complex_Main "HOL-Library.Log_Nat"
begin

section \<open>Python values used by \<^verbatim>\<open>compress_video.py\<close>\<close>

subsection \<open>Exceptions and the ways a call can end\<close>

text \<open>
  A call of a Python function either returns a value, raises an exception, or ends the
  interpreter through \<^verbatim>\<open>sys.exit(n)\<close>. The script only catches
  \<^verbatim>\<open>subprocess.CalledProcessError\<close>; every other exception travels to the top level,
  where the interpreter prints a traceback and the process ends with status 1.
\<close>

datatype py_exc =
    CalledProcessError int
  | OSError
  | ValueError
  | OverflowError
  | ZeroDivisionError

datatype 'a outcome = Return 'a | Raise py_exc | SysExit int

fun and_then :: "'a outcome \<Rightarrow> ('a \<Rightarrow> 'b outcome) \<Rightarrow> 'b outcome" where
  "and_then (Return v) k = k v"
| "and_then (Raise e) k = Raise e"
| "and_then (SysExit n) k = SysExit n"

fun exit_status :: "'a outcome \<Rightarrow> int" where
  "exit_status (Return v) = 0"
| "exit_status (Raise e) = 1"
| "exit_status (SysExit n) = n"

subsection \<open>Floating point: IEEE 754 binary64, round to nearest, ties to even\<close>

text \<open>
  A Python \<^verbatim>\<open>float\<close> is a binary64 number. A finite one is kept as the rational it
  denotes; the two zeros are identified (the script cannot tell them apart except in the
  text of a printed message). The result of an arithmetic operation is the exact
  rational result rounded to the nearest number of the form \<open>m * 2 powi e\<close> with
  \<open>\<bar>m\<bar> < 2 ^ 53\<close> and \<open>- 1074 \<le> e\<close>, ties going to the even \<open>m\<close>, and it
  overflows to an infinity when the rounded magnitude reaches \<open>2 ^ 1024\<close>.
\<close>

datatype pyfloat = Num rat | PosInf | NegInf | NaN

definition round_half_even :: "rat \<Rightarrow> int" where
  "round_half_even x =
     (let f = \<lfloor>x\<rfloor>; r = x - of_int f
      in if r < 1 / 2 then f
         else if 1 / 2 < r then f + 1
         else if even f then f else f + 1)"

text \<open>\<open>ilog2 x\<close> is \<open>\<lfloor>log\<^sub>2 x\<rfloor>\<close> for a positive rational, computed on integers.\<close>

definition ilog2 :: "rat \<Rightarrow> int" where
  "ilog2 x = (if 1 \<le> x then bitlen \<lfloor>x\<rfloor> - 1 else - bitlen (\<lceil>1 / x\<rceil> - 1))"

text \<open>The exponent of the last mantissa bit: 53 significant bits, subnormals from \<open>- 1074\<close>.\<close>

definition binade :: "rat \<Rightarrow> int" where
  "binade x = max (ilog2 \<bar>x\<bar> - 52) (- 1074)"

definition round_binary64 :: "rat \<Rightarrow> rat" where
  "round_binary64 x =
     (if x = 0 then 0
      else of_int (round_half_even (x / 2 powi binade x)) * 2 powi binade x)"

definition to_float :: "rat \<Rightarrow> pyfloat" where
  "to_float x =
     (let y = round_binary64 x
      in if 2 ^ 1024 \<le> y then PosInf
         else if y \<le> - (2 ^ 1024) then NegInf
         else Num y)"

text \<open>
  \<^verbatim>\<open>float(n)\<close> for an \<^verbatim>\<open>int\<close>, as Python applies it to the integer operand of a mixed
  operation: correctly rounded, \<^verbatim>\<open>OverflowError\<close> when the integer is too large.
\<close>

definition float_of_int :: "int \<Rightarrow> pyfloat outcome" where
  "float_of_int n =
     (case to_float (of_int n) of
        Num y \<Rightarrow> Return (Num y)
      | PosInf \<Rightarrow> Raise OverflowError
      | NegInf \<Rightarrow> Raise OverflowError
      | NaN \<Rightarrow> Raise OverflowError)"

text \<open>\<^verbatim>\<open>a / b\<close> on two floats: a zero divisor raises, everything else follows IEEE 754.\<close>

fun float_truediv :: "pyfloat \<Rightarrow> pyfloat \<Rightarrow> pyfloat outcome" where
  "float_truediv a (Num y) =
     (if y = 0 then Raise ZeroDivisionError
      else Return (case a of
                     Num x \<Rightarrow> to_float (x / y)
                   | PosInf \<Rightarrow> if 0 < y then PosInf else NegInf
                   | NegInf \<Rightarrow> if 0 < y then NegInf else PosInf
                   | NaN \<Rightarrow> NaN))"
| "float_truediv a NaN = Return NaN"
| "float_truediv (Num x) b = Return (Num 0)"
| "float_truediv a b = Return NaN"

fun float_sub :: "pyfloat \<Rightarrow> pyfloat \<Rightarrow> pyfloat" where
  "float_sub (Num x) (Num y) = to_float (x - y)"
| "float_sub NaN b = NaN"
| "float_sub a NaN = NaN"
| "float_sub PosInf PosInf = NaN"
| "float_sub NegInf NegInf = NaN"
| "float_sub PosInf b = PosInf"
| "float_sub NegInf b = NegInf"
| "float_sub (Num x) PosInf = NegInf"
| "float_sub (Num x) NegInf = PosInf"

fun float_mul :: "pyfloat \<Rightarrow> pyfloat \<Rightarrow> pyfloat" where
  "float_mul (Num x) (Num y) = to_float (x * y)"
| "float_mul NaN b = NaN"
| "float_mul a NaN = NaN"
| "float_mul PosInf (Num y) = (if y = 0 then NaN else if 0 < y then PosInf else NegInf)"
| "float_mul NegInf (Num y) = (if y = 0 then NaN else if 0 < y then NegInf else PosInf)"
| "float_mul (Num x) PosInf = (if x = 0 then NaN else if 0 < x then PosInf else NegInf)"
| "float_mul (Num x) NegInf = (if x = 0 then NaN else if 0 < x then NegInf else PosInf)"
| "float_mul PosInf PosInf = PosInf"
| "float_mul NegInf NegInf = PosInf"
| "float_mul PosInf NegInf = NegInf"
| "float_mul NegInf PosInf = NegInf"

text \<open>\<^verbatim>\<open>int(x)\<close> on a float truncates toward zero; it raises on \<^verbatim>\<open>nan\<close> and the infinities.\<close>

fun py_int :: "pyfloat \<Rightarrow> int outcome" where
  "py_int (Num x) = Return (if 0 \<le> x then \<lfloor>x\<rfloor> else \<lceil>x\<rceil>)"
| "py_int NaN = Raise ValueError"
| "py_int PosInf = Raise OverflowError"
| "py_int NegInf = Raise OverflowError"

text \<open>\<^verbatim>\<open>math.floor(x)\<close>, which the specification's formula names, fails the same way.\<close>

fun py_floor :: "pyfloat \<Rightarrow> int outcome" where
  "py_floor (Num x) = Return \<lfloor>x\<rfloor>"
| "py_floor NaN = Raise ValueError"
| "py_floor PosInf = Raise OverflowError"
| "py_floor NegInf = Raise OverflowError"

text \<open>\<^verbatim>\<open>a / b\<close> on two ints: the exact quotient, correctly rounded.\<close>

definition int_truediv :: "int \<Rightarrow> int \<Rightarrow> pyfloat outcome" where
  "int_truediv a b =
     (if b = 0 then Raise ZeroDivisionError
      else case to_float (of_int a / of_int b) of
             Num y \<Rightarrow> Return (Num y)
           | PosInf \<Rightarrow> Raise OverflowError
           | NegInf \<Rightarrow> Raise OverflowError
           | NaN \<Rightarrow> Raise OverflowError)"

text \<open>\<^verbatim>\<open>x <= n\<close> between a float and an int compares the exact values.\<close>

fun float_le_int :: "pyfloat \<Rightarrow> int \<Rightarrow> bool" where
  "float_le_int (Num x) n = (x \<le> of_int n)"
| "float_le_int NegInf n = True"
| "float_le_int PosInf n = False"
| "float_le_int NaN n = False"

text \<open>\<^verbatim>\<open>a <= b\<close> between two floats; every comparison with \<^verbatim>\<open>nan\<close> is false.\<close>

fun float_le :: "pyfloat \<Rightarrow> pyfloat \<Rightarrow> bool" where
  "float_le (Num x) (Num y) = (x \<le> y)"
| "float_le NaN b = False"
| "float_le a NaN = False"
| "float_le NegInf b = True"
| "float_le a PosInf = True"
| "float_le a b = False"

text \<open>\<^verbatim>\<open>0 < x\<close> for a float, the reading of a positive duration.\<close>

fun float_pos :: "pyfloat \<Rightarrow> bool" where
  "float_pos (Num x) = (0 < x)"
| "float_pos PosInf = True"
| "float_pos NegInf = False"
| "float_pos NaN = False"

section \<open>The bitrate calculation of \<^verbatim>\<open>compress_video\<close> (lines 62 to 68)\<close>

text \<open>
  \<^verbatim>\<open>
  audio_bitrate_kbps = 128
  target_size_bits = target_size_mb * 8 * 1024 * 1024
  target_total_bitrate_kbps = (target_size_bits / duration) / 1000
  target_video_bitrate_kbps = target_total_bitrate_kbps - audio_bitrate_kbps
  target_video_bitrate_kbps = int(target_video_bitrate_kbps * 0.95)
  \<close>
  \<^verbatim>\<open>target_size_mb\<close> is an \<^verbatim>\<open>int\<close> (the default 100 and the entry point's 80), so the
  product is exact; \<^verbatim>\<open>duration\<close> is the float of the probe. The integer operands 1000
  and 128 convert to floats exactly. \<open>scaled_video_bitrate\<close> is the float handed to
  \<^verbatim>\<open>int\<close>.
\<close>

definition audio_bitrate_kbps :: int where
  "audio_bitrate_kbps = 128"

definition safety_margin :: pyfloat where
  "safety_margin = to_float (95 / 100)"

definition scaled_video_bitrate :: "int \<Rightarrow> pyfloat \<Rightarrow> pyfloat outcome" where
  "scaled_video_bitrate target_size_mb duration =
     (let target_size_bits = target_size_mb * 8 * 1024 * 1024
      in and_then (float_of_int target_size_bits) (\<lambda>bits.
         and_then (float_truediv bits duration) (\<lambda>per_second.
         and_then (float_truediv per_second (Num 1000)) (\<lambda>target_total_bitrate_kbps.
         Return (float_mul
                   (float_sub target_total_bitrate_kbps (Num (of_int audio_bitrate_kbps)))
                   safety_margin)))))"

definition target_video_bitrate_kbps :: "int \<Rightarrow> pyfloat \<Rightarrow> int outcome" where
  "target_video_bitrate_kbps target_size_mb duration =
     and_then (scaled_video_bitrate target_size_mb duration) py_int"

text \<open>
  The formula as the specification words it, with \<open>floor\<close> in the place of \<^verbatim>\<open>int\<close>:
  \<^verbatim>\<open>floor(((target_size_mb * 8 * 1024 * 1024) / duration_seconds / 1000 - 128) * 0.95)\<close>.
\<close>

definition spec_video_kbps :: "int \<Rightarrow> pyfloat \<Rightarrow> int outcome" where
  "spec_video_kbps target_size_mb duration_seconds =
     and_then (float_of_int (target_size_mb * 8 * 1024 * 1024)) (\<lambda>bits.
     and_then (float_truediv bits duration_seconds) (\<lambda>per_second.
     and_then (float_truediv per_second (Num 1000)) (\<lambda>total.
     py_floor (float_mul (float_sub total (Num 128)) (to_float (95 / 100))))))"

section \<open>Strings\<close>

text \<open>
  A Python \<^verbatim>\<open>str\<close> is modelled as a \<open>string\<close> whose characters are the code points
  below 256. \<^verbatim>\<open>str(n)\<close> for an \<^verbatim>\<open>int\<close> is its decimal numeral.
\<close>

fun str_of_nat :: "nat \<Rightarrow> string" where
  "str_of_nat n =
     (if n < 10 then [''0123456789'' ! n]
      else str_of_nat (n div 10) @ [''0123456789'' ! (n mod 10)])"

definition str_of_int :: "int \<Rightarrow> string" where
  "str_of_int i = (if i < 0 then CHR ''-'' # str_of_nat (nat (- i)) else str_of_nat (nat i))"

text \<open>\<^verbatim>\<open>s.strip()\<close> removes the white space of \<^verbatim>\<open>str.isspace\<close> from both ends.\<close>

definition is_space :: "char \<Rightarrow> bool" where
  "is_space c =
     ((of_char c :: nat) \<in> {9, 10, 11, 12, 13, 28, 29, 30, 31, 32, 133, 160})"

definition py_strip :: "string \<Rightarrow> string" where
  "py_strip s = rev (dropWhile is_space (rev (dropWhile is_space s)))"

subsection \<open>\<^verbatim>\<open>float(s)\<close> on a string\<close>

text \<open>
  The grammar of the language reference: an optional sign, then \<^verbatim>\<open>inf\<close>,
  \<^verbatim>\<open>infinity\<close> or \<^verbatim>\<open>nan\<close> in any case, or a decimal number whose digit groups may be
  separated by single underscores, with an optional fraction and exponent. The value is
  the decimal number correctly rounded; anything else raises \<^verbatim>\<open>ValueError\<close>.
\<close>

definition is_digit :: "char \<Rightarrow> bool" where
  "is_digit c = (48 \<le> (of_char c :: nat) \<and> (of_char c :: nat) \<le> 57)"

definition digit_value :: "char \<Rightarrow> nat" where
  "digit_value c = of_char c - 48"

fun digitpart :: "string \<Rightarrow> bool" where
  "digitpart [] = False"
| "digitpart [c] = is_digit c"
| "digitpart (c # d # cs) =
     (is_digit c \<and> (if d = CHR ''_'' then digitpart cs else digitpart (d # cs)))"

definition digits_value :: "string \<Rightarrow> nat" where
  "digits_value cs = foldl (\<lambda>acc c. 10 * acc + digit_value c) 0 (filter is_digit cs)"

definition ascii_lower :: "char \<Rightarrow> char" where
  "ascii_lower c =
     (if 65 \<le> (of_char c :: nat) \<and> (of_char c :: nat) \<le> 90
      then char_of ((of_char c :: nat) + 32) else c)"

fun split_sign :: "string \<Rightarrow> bool \<times> string" where
  "split_sign [] = (False, [])"
| "split_sign (c # cs) =
     (if c = CHR ''-'' then (True, cs)
      else if c = CHR ''+'' then (False, cs)
      else (False, c # cs))"

definition parse_exponent :: "string \<Rightarrow> int option" where
  "parse_exponent s =
     (case s of
        [] \<Rightarrow> Some 0
      | c # cs \<Rightarrow>
          if c = CHR ''e'' \<or> c = CHR ''E''
          then (case split_sign cs of
                  (neg, ds) \<Rightarrow>
                    if digitpart ds
                    then Some (if neg then - int (digits_value ds) else int (digits_value ds))
                    else None)
          else None)"

definition digit_or_underscore :: "char \<Rightarrow> bool" where
  "digit_or_underscore c = (is_digit c \<or> c = CHR ''_'')"

definition parse_floatnumber :: "string \<Rightarrow> rat option" where
  "parse_floatnumber s =
     (let ip = takeWhile digit_or_underscore s;
          r1 = dropWhile digit_or_underscore s;
          has_point = (r1 \<noteq> [] \<and> hd r1 = CHR ''.'');
          fp = (if has_point then takeWhile digit_or_underscore (tl r1) else []);
          r2 = (if has_point then dropWhile digit_or_underscore (tl r1) else r1);
          mantissa_ok =
            (if has_point
             then (ip = [] \<or> digitpart ip) \<and> (fp = [] \<or> digitpart fp) \<and> (ip \<noteq> [] \<or> fp \<noteq> [])
             else digitpart ip)
      in if mantissa_ok
         then (case parse_exponent r2 of
                 None \<Rightarrow> None
               | Some ex \<Rightarrow>
                   Some (of_nat (digits_value (ip @ fp))
                         * 10 powi (ex - int (length (filter is_digit fp)))))
         else None)"

definition py_float :: "string \<Rightarrow> pyfloat outcome" where
  "py_float s =
     (case split_sign (py_strip s) of
        (neg, body) \<Rightarrow>
          (let low = map ascii_lower body
           in if low = ''inf'' \<or> low = ''infinity'' then Return (if neg then NegInf else PosInf)
              else if low = ''nan'' then Return NaN
              else (case parse_floatnumber body of
                      None \<Rightarrow> Raise ValueError
                    | Some q \<Rightarrow> Return (to_float (if neg then - q else q)))))"

section \<open>The world of the script: files, external tools, printed messages\<close>

type_synonym path = string

text \<open>
  Each \<^verbatim>\<open>print\<close> call of the script is one message; the values interpolated into its
  f-string are the arguments (the text formatting of a float is not modelled).
\<close>

datatype message =
    Input_not_found path
  | Current_size pyfloat
  | No_compression_needed int
  | Error_getting_duration int
  | Duration pyfloat
  | Target_video_bitrate int
  | Target_audio_bitrate int
  | Compressing
  | Compression_complete
  | Original_size pyfloat
  | Compressed_size pyfloat
  | Size_reduction pyfloat
  | Output_file path
  | Error_during_compression int
  | Banner_rule
  | Banner_title
  | Banner_input path
  | Banner_output path
  | Banner_target int
  | Blank_line

datatype event =
    Path_exists path
  | Getsize path
  | Run "string list"
  | Print message

text \<open>
  The state holds the sizes in bytes of the paths that exist and the observable events so
  far, oldest first. The script itself never writes or removes a file; only an external
  tool changes \<open>files\<close>.
\<close>

record state =
  files :: "path \<rightharpoonup> nat"
  trace :: "event list"

definition emit :: "event \<Rightarrow> state \<Rightarrow> state" where
  "emit ev s = s\<lparr>trace := trace s @ [ev]\<rparr>"

text \<open>The command lines of the external tools started so far, oldest first.\<close>

fun commands_run :: "event list \<Rightarrow> string list list" where
  "commands_run [] = []"
| "commands_run (Run cmd # evs) = cmd # commands_run evs"
| "commands_run (ev # evs) = commands_run evs"

text \<open>
  Running a command line either fails to start the program (\<^verbatim>\<open>OSError\<close>, for example
  when it is not installed) or ends with a return code and a standard output, leaving the
  files as the tool made them. What the tools do is a parameter of the model.
\<close>

datatype process = Launch_failed | Exited int string

type_synonym system = "string list \<Rightarrow> (path \<rightharpoonup> nat) \<Rightarrow> process \<times> (path \<rightharpoonup> nat)"

text \<open>\<^verbatim>\<open>subprocess.run(cmd, check=True)\<close>; the result is the captured standard output.\<close>

definition subprocess_run :: "system \<Rightarrow> string list \<Rightarrow> state \<Rightarrow> string outcome \<times> state" where
  "subprocess_run sys cmd s =
     (case sys cmd (files s) of
        (Launch_failed, fs) \<Rightarrow> (Raise OSError, emit (Run cmd) s)
      | (Exited returncode out, fs) \<Rightarrow>
          (if returncode \<noteq> 0 then Raise (CalledProcessError returncode) else Return out,
           emit (Run cmd) (s\<lparr>files := fs\<rparr>)))"

definition os_path_exists :: "path \<Rightarrow> state \<Rightarrow> bool \<times> state" where
  "os_path_exists p s = (p \<in> dom (files s), emit (Path_exists p) s)"

definition os_path_getsize :: "path \<Rightarrow> state \<Rightarrow> nat outcome \<times> state" where
  "os_path_getsize p s =
     (case files s p of
        None \<Rightarrow> (Raise OSError, emit (Getsize p) s)
      | Some n \<Rightarrow> (Return n, emit (Getsize p) s))"

section \<open>The functions of \<^verbatim>\<open>compress_video.py\<close>\<close>

definition ffprobe_cmd :: "path \<Rightarrow> string list" where
  "ffprobe_cmd input_file =
     [''ffprobe'',
      ''-v'', ''error'',
      ''-show_entries'', ''format=duration'',
      ''-of'', ''default=noprint_wrappers=1:nokey=1'',
      input_file]"

definition get_video_duration :: "system \<Rightarrow> path \<Rightarrow> state \<Rightarrow> pyfloat outcome \<times> state" where
  "get_video_duration sys input_file s =
     (case subprocess_run sys (ffprobe_cmd input_file) s of
        (Return out, s1) \<Rightarrow> (py_float (py_strip out), s1)
      | (Raise (CalledProcessError rc), s1) \<Rightarrow>
          (SysExit 1, emit (Print (Error_getting_duration rc)) s1)
      | (Raise e, s1) \<Rightarrow> (Raise e, s1)
      | (SysExit n, s1) \<Rightarrow> (SysExit n, s1))"

definition get_file_size_mb :: "path \<Rightarrow> state \<Rightarrow> pyfloat outcome \<times> state" where
  "get_file_size_mb file_path s =
     (case os_path_getsize file_path s of
        (size_bytes, s1) \<Rightarrow> (and_then size_bytes (\<lambda>n. int_truediv (int n) (1024 * 1024)), s1))"

definition ffmpeg_cmd :: "path \<Rightarrow> int \<Rightarrow> path \<Rightarrow> string list" where
  "ffmpeg_cmd input_file video_kbps output_file =
     [''ffmpeg'',
      ''-i'', input_file,
      ''-c:v'', ''libx264'',
      ''-b:v'', str_of_int video_kbps @ ''k'',
      ''-c:a'', ''aac'',
      ''-b:a'', str_of_int audio_bitrate_kbps @ ''k'',
      ''-preset'', ''medium'',
      ''-movflags'', ''+faststart'',
      ''-y'',
      output_file]"

text \<open>
  The body of the \<^verbatim>\<open>try\<close> block after the encoder has ended normally (lines 91 to 99):
  the output is measured, the reduction computed and the summary printed.
\<close>

definition report_compression :: "pyfloat \<Rightarrow> path \<Rightarrow> state \<Rightarrow> unit outcome \<times> state" where
  "report_compression current_size_mb output_file s =
     (case get_file_size_mb output_file s of
        (Return compressed_size_mb, s1) \<Rightarrow>
          (case float_truediv (float_sub current_size_mb compressed_size_mb) current_size_mb of
             Return ratio \<Rightarrow>
               (let reduction = float_mul ratio (Num 100)
                in (Return (),
                    emit (Print (Output_file output_file))
                      (emit (Print (Size_reduction reduction))
                        (emit (Print (Compressed_size compressed_size_mb))
                          (emit (Print (Original_size current_size_mb))
                            (emit (Print Compression_complete) s1))))))
           | Raise e \<Rightarrow> (Raise e, s1)
           | SysExit n \<Rightarrow> (SysExit n, s1))
      | (Raise e, s1) \<Rightarrow> (Raise e, s1)
      | (SysExit n, s1) \<Rightarrow> (SysExit n, s1))"

text \<open>
  The \<^verbatim>\<open>try\<close> statement of lines 88 to 103: only \<^verbatim>\<open>CalledProcessError\<close> is handled,
  wherever in the block it is raised.
\<close>

definition encode_and_report ::
  "system \<Rightarrow> path \<Rightarrow> path \<Rightarrow> pyfloat \<Rightarrow> int \<Rightarrow> state \<Rightarrow> unit outcome \<times> state" where
  "encode_and_report sys input_file output_file current_size_mb video_kbps s =
     (case (case subprocess_run sys (ffmpeg_cmd input_file video_kbps output_file) s of
              (Return out, s1) \<Rightarrow> report_compression current_size_mb output_file s1
            | (Raise e, s1) \<Rightarrow> (Raise e, s1)
            | (SysExit n, s1) \<Rightarrow> (SysExit n, s1)) of
        (Raise (CalledProcessError rc), s2) \<Rightarrow>
          (SysExit 1, emit (Print (Error_during_compression rc)) s2)
      | (res, s2) \<Rightarrow> (res, s2))"

definition compress_video :: "system \<Rightarrow> path \<Rightarrow> path \<Rightarrow> int \<Rightarrow> state \<Rightarrow> unit outcome \<times> state" where
  "compress_video sys input_file output_file target_size_mb s =
     (case os_path_exists input_file s of
        (False, s1) \<Rightarrow> (SysExit 1, emit (Print (Input_not_found input_file)) s1)
      | (True, s1) \<Rightarrow>
     (case get_file_size_mb input_file s1 of
        (Raise e, s2) \<Rightarrow> (Raise e, s2)
      | (SysExit n, s2) \<Rightarrow> (SysExit n, s2)
      | (Return current_size_mb, s2) \<Rightarrow>
     (let s3 = emit (Print (Current_size current_size_mb)) s2
      in if float_le_int current_size_mb target_size_mb
         then (Return (), emit (Print (No_compression_needed target_size_mb)) s3)
         else
     (case get_video_duration sys input_file s3 of
        (Raise e, s4) \<Rightarrow> (Raise e, s4)
      | (SysExit n, s4) \<Rightarrow> (SysExit n, s4)
      | (Return duration, s4) \<Rightarrow>
     (let s5 = emit (Print (Duration duration)) s4
      in case target_video_bitrate_kbps target_size_mb duration of
           Raise e \<Rightarrow> (Raise e, s5)
         | SysExit n \<Rightarrow> (SysExit n, s5)
         | Return video_kbps \<Rightarrow>
             encode_and_report sys input_file output_file current_size_mb video_kbps
               (emit (Print Compressing)
                 (emit (Print (Target_audio_bitrate audio_bitrate_kbps))
                   (emit (Print (Target_video_bitrate video_kbps)) s5))))))))"

text \<open>The entry point (lines 105 to 120) and the status the process ends with.\<close>

definition input_video :: path where
  "input_video = ''asset/DESFRALDE CONSCIENTE VD PROMO 001.mp4''"

definition output_video :: path where
  "output_video = ''asset/DESFRALDE CONSCIENTE VD PROMO 001_compressed.mp4''"

definition target_size :: int where
  "target_size = 80"

definition main :: "system \<Rightarrow> state \<Rightarrow> unit outcome \<times> state" where
  "main sys s =
     compress_video sys input_video output_video target_size
       (emit (Print Blank_line)
         (emit (Print Banner_rule)
           (emit (Print (Banner_target target_size))
             (emit (Print (Banner_output output_video))
               (emit (Print (Banner_input input_video))
                 (emit (Print Banner_rule)
                   (emit (Print Banner_title)
                     (emit (Print Banner_rule) s))))))))"

definition process_status :: "system \<Rightarrow> state \<Rightarrow> int" where
  "process_status sys s = exit_status (fst (main sys s))"

section \<open>Properties of the rounding\<close>

subsection \<open>The integer logarithm\<close>

lemma two_powi_nat: "0 \<le> k \<Longrightarrow> (2::rat) powi k = of_int (2 ^ nat k)"
  by (simp add: power_int_def)

lemma ilog2_bounds_ge1:
  assumes "1 \<le> (x::rat)"
  shows "2 powi ilog2 x \<le> x \<and> x < 2 powi (ilog2 x + 1)"
proof -
  define n where "n = \<lfloor>x\<rfloor>"
  have n1: "1 \<le> n" using assms by (simp add: n_def)
  have b: "2 ^ nat (bitlen n - 1) \<le> n" "n < 2 ^ nat (bitlen n)"
    using bitlen_bounds [of n] n1 by auto
  have k1: "1 \<le> bitlen n"
    using n1 bitlen_eq_zero_iff [of n] bitlen_nonneg [of n] by linarith
  have il: "ilog2 x = bitlen n - 1" using assms by (simp add: ilog2_def n_def)
  have "(2::rat) powi (bitlen n - 1) = of_int (2 ^ nat (bitlen n - 1))"
    using k1 by (intro two_powi_nat) simp
  also have "\<dots> \<le> of_int n" using b(1) by (simp only: of_int_le_iff)
  also have "\<dots> \<le> x" by (simp add: n_def)
  finally have lo: "2 powi ilog2 x \<le> x" by (simp add: il)
  have "x < of_int (n + 1)" unfolding n_def by linarith
  also have "\<dots> \<le> of_int (2 ^ nat (bitlen n))"
    using b(2) by (simp only: of_int_le_iff)
  also have "\<dots> = (2::rat) powi (bitlen n)"
    using k1 by (subst two_powi_nat) simp_all
  finally have "x < 2 powi (ilog2 x + 1)" by (simp add: il)
  with lo show ?thesis by simp
qed

lemma ilog2_bounds_lt1:
  assumes "0 < (x::rat)" "x < 1"
  shows "2 powi ilog2 x \<le> x \<and> x < 2 powi (ilog2 x + 1)"
proof -
  define c where "c = \<lceil>1 / x\<rceil>"
  define k where "k = bitlen (c - 1)"
  have r1: "1 < 1 / x" using assms by simp
  have c2: "2 \<le> c" using r1 unfolding c_def by linarith
  have b: "2 ^ nat (k - 1) \<le> c - 1" "c - 1 < 2 ^ nat k"
    using bitlen_bounds [of "c - 1"] c2 by (auto simp: k_def)
  have k1: "1 \<le> k"
    using c2 bitlen_eq_zero_iff [of "c - 1"] bitlen_nonneg [of "c - 1"] unfolding k_def by linarith
  have il: "ilog2 x = - k" using assms by (simp add: ilog2_def k_def c_def)
  have rc: "of_int (c - 1) < 1 / x" "1 / x \<le> of_int c"
    unfolding c_def by linarith+
  have "1 / x \<le> of_int c" by (rule rc)
  also have "\<dots> \<le> of_int (2 ^ nat k)" using b(2) by (simp only: of_int_le_iff)
  also have "\<dots> = (2::rat) powi k" using k1 by (subst two_powi_nat) simp_all
  finally have "1 / x \<le> 2 powi k" .
  then have "1 / (2 powi k) \<le> x"
    using assms(1) by (simp add: field_simps)
  then have lo: "2 powi ilog2 x \<le> x" by (simp add: il power_int_minus_divide)
  have "(2::rat) powi (k - 1) = of_int (2 ^ nat (k - 1))" using k1 by (intro two_powi_nat) simp
  also have "\<dots> \<le> of_int (c - 1)" using b(1) by (simp only: of_int_le_iff)
  also have "\<dots> < 1 / x" by (rule rc)
  finally have "2 powi (k - 1) < 1 / x" .
  then have "x < 1 / 2 powi (k - 1)"
    using assms(1) by (simp add: field_simps)
  also have "\<dots> = 2 powi (- (k - 1))" by (simp only: power_int_minus_divide)
  finally have "x < 2 powi (ilog2 x + 1)" by (simp add: il)
  with lo show ?thesis by simp
qed

lemma ilog2_bounds:
  "0 < x \<Longrightarrow> 2 powi ilog2 x \<le> x \<and> x < 2 powi (ilog2 x + 1)"
  using ilog2_bounds_ge1 [of x] ilog2_bounds_lt1 [of x] by (cases "1 \<le> x") auto

lemma ilog2_unique:
  assumes "2 powi k \<le> (x::rat)" "x < 2 powi (k + 1)"
  shows "ilog2 x = k"
proof -
  have x0: "0 < x" using assms(1) by (meson less_le_trans zero_less_numeral zero_less_power_int)
  note b = ilog2_bounds [OF x0]
  have "(2::rat) powi k < 2 powi (ilog2 x + 1)" using assms(1) b by linarith
  then have 1: "k < ilog2 x + 1"
    by (metis not_le power_int_increasing one_le_numeral)
  have "(2::rat) powi ilog2 x < 2 powi (k + 1)" using assms(2) b by linarith
  then have 2: "ilog2 x < k + 1"
    by (metis not_le power_int_increasing one_le_numeral)
  from 1 2 show ?thesis by simp
qed

lemma ilog2_mono:
  assumes "0 < (x::rat)" "x \<le> y"
  shows "ilog2 x \<le> ilog2 y"
proof -
  have "(2::rat) powi ilog2 x < 2 powi (ilog2 y + 1)"
    using ilog2_bounds [of x] ilog2_bounds [of y] assms by linarith
  then have "ilog2 x < ilog2 y + 1"
    by (metis not_le power_int_increasing one_le_numeral)
  then show ?thesis by simp
qed

subsection \<open>Rounding to the nearest integer, ties to even\<close>

lemma round_half_even_of_int: "round_half_even (of_int n) = n"
  by (simp add: round_half_even_def)

lemma round_half_even_range:
  "\<lfloor>x\<rfloor> \<le> round_half_even x \<and> round_half_even x \<le> \<lfloor>x\<rfloor> + 1"
  by (simp add: round_half_even_def Let_def)

lemma round_half_even_mono:
  assumes "x \<le> y"
  shows "round_half_even x \<le> round_half_even y"
proof (cases "\<lfloor>x\<rfloor> = \<lfloor>y\<rfloor>")
  case True
  then show ?thesis using assms by (auto simp: round_half_even_def Let_def)
next
  case False
  then have "\<lfloor>x\<rfloor> + 1 \<le> \<lfloor>y\<rfloor>" using floor_mono [OF assms] by linarith
  then show ?thesis
    using round_half_even_range [of x] round_half_even_range [of y] by linarith
qed

lemma round_half_even_near:
  "\<bar>of_int (round_half_even x) - x\<bar> \<le> 1 / 2"
proof -
  have "of_int \<lfloor>x\<rfloor> \<le> x" "x < of_int \<lfloor>x\<rfloor> + 1" by linarith+
  then show ?thesis by (auto simp: round_half_even_def Let_def)
qed

lemma round_half_even_cert:
  assumes "of_int m - 1 / 2 < x" "x < of_int m + 1 / 2"
  shows "round_half_even x = m"
proof -
  have "\<bar>of_int (round_half_even x) - x\<bar> \<le> 1 / 2" by (rule round_half_even_near)
  with assms have "\<bar>(of_int (round_half_even x) :: rat) - of_int m\<bar> < 1" by linarith
  then have "\<bar>(of_int (round_half_even x - m) :: rat)\<bar> < 1" by simp
  then have "\<bar>round_half_even x - m\<bar> < 1"
    by (metis of_int_abs of_int_less_1_iff)
  then show ?thesis by linarith
qed

lemma round_half_even_uminus: "round_half_even (- x) = - round_half_even x"
proof (cases "x = of_int \<lfloor>x\<rfloor>")
  case True
  then show ?thesis
    by (metis of_int_minus round_half_even_of_int)
next
  case False
  define f where "f = \<lfloor>x\<rfloor>"
  define r where "r = x - of_int f"
  have fl: "\<lfloor>- x\<rfloor> = - f - 1"
    using False by (simp add: floor_minus ceiling_altdef f_def)
  have "of_int f \<le> x" "x < of_int f + 1" unfolding f_def by linarith+
  moreover have "x \<noteq> of_int f" using False by (simp add: f_def)
  ultimately have r: "0 < r" "r < 1" unfolding r_def by linarith+
  have r': "- x - of_int (- f - 1) = 1 - r" by (simp add: r_def)
  have a: "round_half_even x = (if r < 1 / 2 then f else if 1 / 2 < r then f + 1
      else if even f then f else f + 1)"
    by (simp add: round_half_even_def Let_def f_def r_def)
  have b: "round_half_even (- x) = (if 1 - r < 1 / 2 then - f - 1 else if 1 / 2 < 1 - r then - f
      else if even (- f - 1) then - f - 1 else - f)"
    unfolding round_half_even_def Let_def fl r' by simp
  show ?thesis unfolding a b using r by auto
qed

subsection \<open>Rounding to binary64: symmetry, monotonicity, exact values\<close>

lemma binade_uminus: "binade (- x) = binade x"
  by (simp add: binade_def)

lemma binade_ge: "- 1074 \<le> binade x"
  by (simp add: binade_def)

lemma round_binary64_uminus: "round_binary64 (- x) = - round_binary64 x"
  by (simp add: round_binary64_def binade_uminus round_half_even_uminus)

lemma binade_cert:
  assumes "2 powi (e + 52) \<le> \<bar>x\<bar>" "\<bar>x\<bar> < 2 powi (e + 53)" "- 1074 \<le> e"
  shows "binade x = e"
proof -
  have "ilog2 \<bar>x\<bar> = e + 52"
    using assms(1,2) by (intro ilog2_unique) (simp_all add: add.commute add.left_commute)
  then show ?thesis using assms(3) by (simp add: binade_def)
qed

lemma binade_mono:
  assumes "0 < x" "x \<le> y"
  shows "binade x \<le> binade y"
  using ilog2_mono [of x y] assms by (simp add: binade_def)

lemma scaled_upper:
  assumes "0 < x"
  shows "x / 2 powi binade x < 2 ^ 53"
proof -
  have "ilog2 x + 1 \<le> binade x + 53" using assms by (simp add: binade_def)
  then have "(2::rat) powi (ilog2 x + 1) \<le> 2 powi (binade x + 53)"
    by (intro power_int_increasing) simp_all
  then have "x < 2 powi (binade x + 53)"
    using ilog2_bounds [OF assms] by linarith
  also have "\<dots> = 2 powi binade x * 2 ^ 53"
    by (simp add: power_int_add)
  finally show ?thesis
    by (simp add: field_simps)
qed

lemma scaled_lower:
  assumes "0 < x" "- 1074 < binade x"
  shows "2 ^ 52 \<le> x / 2 powi binade x"
proof -
  have "binade x = ilog2 x - 52" using assms by (simp add: binade_def)
  then have "(2::rat) powi (binade x + 52) = 2 powi ilog2 x" by simp
  then have "2 powi (binade x + 52) \<le> x"
    using ilog2_bounds [OF assms(1)] by simp
  moreover have "(2::rat) powi (binade x + 52) = 2 powi binade x * 2 ^ 52"
    by (simp add: power_int_add)
  ultimately show ?thesis
    by (simp add: field_simps)
qed

lemma round_binary64_pos_upper:
  assumes "0 < x"
  shows "round_binary64 x \<le> 2 powi (binade x + 53)"
proof -
  have "round_half_even (x / 2 powi binade x) \<le> round_half_even (of_int (2 ^ 53))"
    using scaled_upper [OF assms] by (intro round_half_even_mono) simp
  then have "round_half_even (x / 2 powi binade x) \<le> 2 ^ 53"
    by (simp only: round_half_even_of_int)
  then have "(of_int (round_half_even (x / 2 powi binade x)) :: rat) \<le> of_int (2 ^ 53)"
    by (simp only: of_int_le_iff)
  then have "of_int (round_half_even (x / 2 powi binade x)) * 2 powi binade x
      \<le> 2 ^ 53 * (2::rat) powi binade x"
    by (intro mult_right_mono) simp_all
  then show ?thesis using assms
    by (simp add: round_binary64_def power_int_add mult.commute)
qed

lemma round_binary64_pos_lower:
  assumes "0 < x" "- 1074 < binade x"
  shows "2 powi (binade x + 52) \<le> round_binary64 x"
proof -
  have "round_half_even (of_int (2 ^ 52)) \<le> round_half_even (x / 2 powi binade x)"
    using scaled_lower [OF assms] by (intro round_half_even_mono) simp
  then have "2 ^ 52 \<le> round_half_even (x / 2 powi binade x)"
    by (simp only: round_half_even_of_int)
  then have "(of_int (2 ^ 52) :: rat) \<le> of_int (round_half_even (x / 2 powi binade x))"
    by (simp only: of_int_le_iff)
  then have "2 ^ 52 * (2::rat) powi binade x
      \<le> of_int (round_half_even (x / 2 powi binade x)) * 2 powi binade x"
    by (intro mult_right_mono) simp_all
  then show ?thesis using assms
    by (simp add: round_binary64_def power_int_add mult.commute)
qed

lemma round_binary64_nonneg:
  assumes "0 \<le> x"
  shows "0 \<le> round_binary64 x"
proof -
  have "0 \<le> x / 2 powi binade x" using assms by simp
  then have "round_half_even 0 \<le> round_half_even (x / 2 powi binade x)"
    by (rule round_half_even_mono)
  then have "0 \<le> round_half_even (x / 2 powi binade x)"
    using round_half_even_of_int [of 0] by simp
  then show ?thesis by (simp add: round_binary64_def)
qed

lemma round_binary64_mono_pos:
  assumes "0 < x" "x \<le> y"
  shows "round_binary64 x \<le> round_binary64 y"
proof (cases "binade x = binade y")
  case True
  have "x / 2 powi binade y \<le> y / 2 powi binade y"
    using assms(2) by (simp add: divide_right_mono)
  then have "round_half_even (x / 2 powi binade y) \<le> round_half_even (y / 2 powi binade y)"
    by (rule round_half_even_mono)
  then have "(of_int (round_half_even (x / 2 powi binade y)) :: rat) * 2 powi binade y
      \<le> of_int (round_half_even (y / 2 powi binade y)) * 2 powi binade y"
    by (intro mult_right_mono) simp_all
  then show ?thesis using assms by (simp add: round_binary64_def True)
next
  case False
  have y: "0 < y" using assms by simp
  have lt: "binade x < binade y" using binade_mono [OF assms] False by simp
  then have "- 1074 < binade y" using binade_ge [of x] by linarith
  then have lo: "2 powi (binade y + 52) \<le> round_binary64 y"
    by (rule round_binary64_pos_lower [OF y])
  have "binade x + 53 \<le> binade y + 52" using lt by simp
  then have "(2::rat) powi (binade x + 53) \<le> 2 powi (binade y + 52)"
    by (intro power_int_increasing) simp_all
  then show ?thesis
    using lo round_binary64_pos_upper [OF assms(1)] by linarith
qed

lemma round_binary64_mono:
  assumes "x \<le> y"
  shows "round_binary64 x \<le> round_binary64 y"
proof -
  consider "0 < x" | "x \<le> 0" "0 \<le> y" | "y < 0" by linarith
  then show ?thesis
  proof cases
    case 1
    then show ?thesis using assms by (rule round_binary64_mono_pos)
  next
    case 2
    have "0 \<le> round_binary64 (- x)" using 2(1) by (intro round_binary64_nonneg) simp
    then have "round_binary64 x \<le> 0" by (simp add: round_binary64_uminus)
    then show ?thesis using round_binary64_nonneg [OF 2(2)] by linarith
  next
    case 3
    have "round_binary64 (- y) \<le> round_binary64 (- x)"
      using 3 assms by (intro round_binary64_mono_pos) simp_all
    then show ?thesis by (simp add: round_binary64_uminus)
  qed
qed

lemma round_binary64_exact:
  assumes "\<bar>m\<bar> < 2 ^ 53" "- 1074 \<le> e"
  shows "round_binary64 (of_int m * 2 powi e) = of_int m * 2 powi e"
proof (cases "m = 0")
  case True
  then show ?thesis by (simp add: round_binary64_def)
next
  case False
  define x :: rat where "x = of_int m * 2 powi e"
  define b where "b = binade x"
  have x0: "x \<noteq> 0" using False by (simp add: x_def)
  have ax: "\<bar>x\<bar> = of_int \<bar>m\<bar> * 2 powi e" by (simp add: x_def abs_mult)
  have "(of_int \<bar>m\<bar> :: rat) < of_int (2 ^ 53)" using assms(1) by (simp only: of_int_less_iff)
  then have "\<bar>x\<bar> < 2 ^ 53 * 2 powi e" unfolding ax
    by (intro mult_strict_right_mono) simp_all
  then have up: "\<bar>x\<bar> < 2 powi (e + 53)" by (simp add: power_int_add mult.commute)
  have "(2::rat) powi ilog2 \<bar>x\<bar> < 2 powi (e + 53)"
    using ilog2_bounds [of "\<bar>x\<bar>"] x0 up by simp
  then have "ilog2 \<bar>x\<bar> < e + 53"
    by (metis not_le power_int_increasing one_le_numeral)
  then have be: "b \<le> e" using assms(2) by (simp add: b_def binade_def)
  have "x / 2 powi b = of_int m * 2 powi (e - b)"
    by (simp add: x_def power_int_diff)
  also have "\<dots> = of_int (m * 2 ^ nat (e - b))"
    using be by (simp add: power_int_def)
  finally have sc: "x / 2 powi b = of_int (m * 2 ^ nat (e - b))" .
  have "round_binary64 x = of_int (round_half_even (x / 2 powi b)) * 2 powi b"
    using x0 by (simp add: round_binary64_def b_def)
  also have "\<dots> = (x / 2 powi b) * 2 powi b"
    unfolding sc round_half_even_of_int ..
  also have "\<dots> = x" by simp
  finally show ?thesis by (simp add: x_def)
qed

lemma round_binary64_cert:
  assumes "2 powi (e + 52) \<le> \<bar>x\<bar>" "\<bar>x\<bar> < 2 powi (e + 53)" "- 1074 \<le> e"
    and "of_int m - 1 / 2 < x / 2 powi e" "x / 2 powi e < of_int m + 1 / 2"
  shows "round_binary64 x = of_int m * 2 powi e"
proof -
  have "x \<noteq> 0" using assms(1)
    by (metis abs_zero not_le zero_less_numeral zero_less_power_int)
  moreover have "binade x = e" using assms(1-3) by (rule binade_cert)
  moreover have "round_half_even (x / 2 powi e) = m" using assms(4,5) by (rule round_half_even_cert)
  ultimately show ?thesis by (simp add: round_binary64_def)
qed

subsection \<open>Overflow, and evaluating a rounding from its mantissa and exponent\<close>

lemma round_binary64_bound:
  assumes "\<bar>x\<bar> \<le> 2 ^ k" "k \<le> 1023"
  shows "\<bar>round_binary64 x\<bar> \<le> 2 ^ k"
proof -
  have e: "round_binary64 (2 ^ k) = 2 ^ k"
    using round_binary64_exact [of 1 "int k"] by simp
  have "round_binary64 x \<le> round_binary64 (2 ^ k)"
    using assms(1) by (intro round_binary64_mono) simp
  moreover have "round_binary64 (- (2 ^ k)) \<le> round_binary64 x"
    using assms(1) by (intro round_binary64_mono) simp
  ultimately show ?thesis
    by (simp add: e round_binary64_uminus abs_le_iff)
qed

lemma to_float_finite:
  assumes "\<bar>x\<bar> \<le> 2 ^ k" "k \<le> 1023"
  shows "to_float x = Num (round_binary64 x)"
proof -
  have "\<bar>round_binary64 x\<bar> \<le> 2 ^ k" using assms by (rule round_binary64_bound)
  also have "(2::rat) ^ k \<le> 2 ^ 1023" using assms(2) by (intro power_increasing) simp_all
  also have "\<dots> < 2 ^ 1024" by (intro power_strict_increasing) simp_all
  finally have "\<bar>round_binary64 x\<bar> < 2 ^ 1024" .
  then show ?thesis by (simp add: to_float_def Let_def abs_less_iff)
qed

lemma to_float_cert:
  assumes "2 powi (e + 52) \<le> \<bar>x\<bar>" "\<bar>x\<bar> < 2 powi (e + 53)" "- 1074 \<le> e"
    and "of_int m - 1 / 2 < x / 2 powi e" "x / 2 powi e < of_int m + 1 / 2"
    and "\<bar>x\<bar> \<le> 2 ^ 64"
  shows "to_float x = Num (of_int m * 2 powi e)"
  using to_float_finite [of x 64] round_binary64_cert [OF assms(1-5)] assms(6) by simp

lemma float_of_int_exact:
  assumes "\<bar>n\<bar> < 2 ^ 53"
  shows "float_of_int n = Return (Num (of_int n))"
proof -
  have "round_binary64 (of_int n) = of_int n"
    using round_binary64_exact [of n 0] assms by simp
  moreover have "\<bar>of_int n :: rat\<bar> \<le> 2 ^ 53"
    using assms by (metis of_int_abs of_int_le_numeral_power_cancel_iff less_imp_le)
  ultimately show ?thesis
    using to_float_finite [of "of_int n" 53] by (simp add: float_of_int_def)
qed

lemma safety_margin_value: "safety_margin = Num (8556839292003942 / 2 ^ 53)"
  unfolding safety_margin_def
  using to_float_cert [of "- 53" "95 / 100" 8556839292003942] by simp

lemma bits_80: "float_of_int (80 * 8 * 1024 * 1024) = Return (Num 671088640)"
  using float_of_int_exact [of 671088640] by simp

lemma per_second_80_600:
  "float_truediv (Num 671088640) (Num 600) = Return (Num (4803839602528529 / 2 ^ 32))"
  using to_float_cert [of "- 32" "671088640 / 600" 4803839602528529] by simp

lemma total_80_600:
  "float_truediv (Num (4803839602528529 / 2 ^ 32)) (Num 1000)
     = Return (Num (4919131752989214 / 2 ^ 42))"
  using to_float_cert [of "- 42" "4803839602528529 / 2 ^ 32 / 1000" 4919131752989214] by simp

lemma video_80_600:
  "float_sub (Num (4919131752989214 / 2 ^ 42)) (Num 128) = Num (8712363599135804 / 2 ^ 43)"
  using to_float_cert [of "- 43" "4919131752989214 / 2 ^ 42 - 128" 8712363599135804] by simp

lemma margin_80_600:
  "float_mul (Num (8712363599135804 / 2 ^ 43)) (Num (8556839292003942 / 2 ^ 53))
     = Num (8276745419179013 / 2 ^ 43)"
  using to_float_cert [of "- 43" "8712363599135804 / 2 ^ 43 * (8556839292003942 / 2 ^ 53)"
      8276745419179013] by simp

lemma scaled_80_600:
  "scaled_video_bitrate 80 (Num 600) = Return (Num (8276745419179013 / 2 ^ 43))"
  unfolding scaled_video_bitrate_def Let_def bits_80 and_then.simps per_second_80_600
    total_80_600 audio_bitrate_kbps_def of_int_numeral video_80_600 safety_margin_value
    margin_80_600 ..

section \<open>The float operations are monotone\<close>

lemma to_float_mono:
  assumes "x \<le> y"
  shows "float_le (to_float x) (to_float y)"
  using round_binary64_mono [OF assms] by (auto simp: to_float_def Let_def)

lemma float_le_Num_cases:
  assumes "float_le (Num lo) a"
  obtains x where "a = Num x" "lo \<le> x" | "a = PosInf"
  using assms by (cases a) auto

lemma float_le_trans:
  assumes "float_le a b" "float_le b c"
  shows "float_le a c"
  using assms by (cases a; cases b; cases c) auto

lemma float_of_int_mono:
  assumes "0 \<le> n1" "n1 \<le> n2" "float_of_int n2 = Return b"
  shows "\<exists>x y. float_of_int n1 = Return (Num x) \<and> b = Num y \<and> 0 \<le> x \<and> x \<le> y"
proof -
  have z: "to_float 0 = Num 0" by (simp add: to_float_def round_binary64_def)
  have 1: "float_le (to_float 0) (to_float (of_int n1))"
    using assms(1) by (intro to_float_mono) simp
  have 2: "float_le (to_float (of_int n1)) (to_float (of_int n2))"
    using assms(2) by (intro to_float_mono) simp
  obtain y where y: "to_float (of_int n2) = Num y" "b = Num y"
    using assms(3) by (auto simp: float_of_int_def split: pyfloat.splits)
  from 1 2 y z show ?thesis
    by (cases "to_float (of_int n1 :: rat)") (auto simp: float_of_int_def)
qed

lemma float_truediv_finite_mono:
  assumes "0 \<le> x" "x \<le> y" "float_pos d"
  shows "\<exists>a b. float_truediv (Num x) d = Return a \<and> float_truediv (Num y) d = Return b
           \<and> float_le (Num 0) a \<and> float_le a b"
proof (cases d)
  case (Num q)
  then have q: "0 < q" using assms(3) by simp
  have z: "to_float 0 = Num 0" by (simp add: to_float_def round_binary64_def)
  have "float_le (to_float 0) (to_float (x / q))"
    using assms(1) q by (intro to_float_mono) simp
  moreover have "float_le (to_float (x / q)) (to_float (y / q))"
    using assms(2) q by (intro to_float_mono) (simp add: divide_right_mono)
  ultimately show ?thesis using q Num z by simp
qed (use assms in auto)

lemma float_truediv_const_mono:
  assumes "float_le (Num 0) a" "float_le a b" "0 < q"
  shows "\<exists>a' b'. float_truediv a (Num q) = Return a' \<and> float_truediv b (Num q) = Return b'
           \<and> float_le (Num 0) a' \<and> float_le a' b'"
proof -
  have z: "to_float 0 = Num 0" by (simp add: to_float_def round_binary64_def)
  have m: "float_le (to_float (x / q)) (to_float (y / q))" if "x \<le> y" for x y
    using that assms(3) by (intro to_float_mono) (simp add: divide_right_mono)
  have n: "float_le (Num 0) (to_float (x / q))" if "0 \<le> x" for x
    using m [of 0 x] that z by simp
  have t: "float_le c PosInf" if "float_le (Num 0) c" for c
    using that by (cases c) auto
  show ?thesis
    using assms m n by (cases a; cases b) (auto intro: t)
qed

lemma float_sub_const_mono:
  assumes "float_le (Num lo) a" "float_le a b" "to_float (lo - c) = Num lo'"
  shows "float_le (Num lo') (float_sub a (Num c))
           \<and> float_le (float_sub a (Num c)) (float_sub b (Num c))"
proof -
  have m: "float_le (to_float (x - c)) (to_float (y - c))" if "x \<le> y" for x y
    using that by (intro to_float_mono) simp
  have n: "float_le (Num lo') (to_float (x - c))" if "lo \<le> x" for x
    using m [of lo x] that assms(3) by simp
  have t: "float_le (to_float u) PosInf" if "float_le (Num lo') (to_float u)" for u
    using that by (cases "to_float u") auto
  show ?thesis
    using assms(1,2) m n by (cases a; cases b) (auto intro: t)
qed

lemma float_mul_const_mono:
  assumes "float_le (Num lo) a" "float_le a b" "0 < m" "to_float (lo * m) = Num lo'"
  shows "float_le (Num lo') (float_mul a (Num m))
           \<and> float_le (float_mul a (Num m)) (float_mul b (Num m))"
proof -
  have mo: "float_le (to_float (x * m)) (to_float (y * m))" if "x \<le> y" for x y
    using that assms(3) by (intro to_float_mono) simp
  have n: "float_le (Num lo') (to_float (x * m))" if "lo \<le> x" for x
    using mo [of lo x] that assms(4) by simp
  have t: "float_le (to_float u) PosInf" if "float_le (Num lo') (to_float u)" for u
    using that by (cases "to_float u") auto
  show ?thesis
    using assms(1-3) mo n by (cases a; cases b) (auto intro: t)
qed

lemma py_int_mono:
  assumes "float_le (Num lo) a" "float_le a b" "py_int b = Return v2"
  shows "\<exists>v1. py_int a = Return v1 \<and> v1 \<le> v2"
proof -
  obtain y where y: "b = Num y" using assms(3) by (cases b) auto
  obtain x where x: "a = Num x" "x \<le> y" using assms(1,2) y by (cases a) auto
  have "\<lceil>x\<rceil> \<le> \<lfloor>y\<rfloor>" if "x < 0" "0 \<le> y"
  proof -
    have "\<lceil>x\<rceil> \<le> 0" using that(1) by (simp add: ceiling_le_zero)
    moreover have "0 \<le> \<lfloor>y\<rfloor>" using that(2) by simp
    ultimately show ?thesis by linarith
  qed
  then have "(if 0 \<le> x then \<lfloor>x\<rfloor> else \<lceil>x\<rceil>) \<le> (if 0 \<le> y then \<lfloor>y\<rfloor> else \<lceil>y\<rceil>)"
    using x(2) by (auto intro: floor_mono ceiling_mono)
  then show ?thesis using assms(3) x y by auto
qed

section \<open>The bitrate calculation as a whole\<close>

lemma neg_128_float: "to_float (0 - 128) = Num (- 128)"
  using to_float_finite [of "- 128" 7] round_binary64_exact [of "- 128" 0] by simp

lemma scaled_video_bitrate_unfold:
  "scaled_video_bitrate t d =
     and_then (float_of_int (t * 8 * 1024 * 1024)) (\<lambda>bits.
     and_then (float_truediv bits d) (\<lambda>per_second.
     and_then (float_truediv per_second (Num 1000)) (\<lambda>total.
     Return (float_mul (float_sub total (Num 128)) (Num (8556839292003942 / 2 ^ 53))))))"
  by (simp add: scaled_video_bitrate_def audio_bitrate_kbps_def safety_margin_value)

lemma scaled_video_bitrate_pair:
  assumes "0 < t1" "t1 \<le> t2" "float_pos d" "scaled_video_bitrate t2 d = Return b"
  shows "\<exists>a lo. scaled_video_bitrate t1 d = Return a \<and> float_le (Num lo) a \<and> float_le a b"
proof -
  define n1 where "n1 = t1 * 8 * 1024 * 1024"
  define n2 where "n2 = t2 * 8 * 1024 * 1024"
  define sm :: rat where "sm = 8556839292003942 / 2 ^ 53"
  have sm: "0 < sm" by (simp add: sm_def)
  have n: "0 \<le> n1" "n1 \<le> n2" using assms(1,2) by (simp_all add: n1_def n2_def)
  have u2: "and_then (float_of_int n2) (\<lambda>bits.
     and_then (float_truediv bits d) (\<lambda>per_second.
     and_then (float_truediv per_second (Num 1000)) (\<lambda>total.
     Return (float_mul (float_sub total (Num 128)) (Num sm))))) = Return b"
    using assms(4) unfolding scaled_video_bitrate_unfold n2_def sm_def .
  then obtain b0 where b0: "float_of_int n2 = Return b0"
    by (cases "float_of_int n2") auto
  from float_of_int_mono [OF n b0] obtain x y
    where xy: "float_of_int n1 = Return (Num x)" "b0 = Num y" "0 \<le> x" "x \<le> y" by blast
  from float_truediv_finite_mono [OF xy(3,4) assms(3)] obtain a1 b1
    where d1: "float_truediv (Num x) d = Return a1" "float_truediv (Num y) d = Return b1"
      "float_le (Num 0) a1" "float_le a1 b1" by blast
  from float_truediv_const_mono [OF d1(3,4), of 1000] obtain a2 b2
    where d2: "float_truediv a1 (Num 1000) = Return a2" "float_truediv b1 (Num 1000) = Return b2"
      "float_le (Num 0) a2" "float_le a2 b2" by auto
  note s = float_sub_const_mono [OF d2(3,4) neg_128_float]
  have "\<bar>- 128 * sm\<bar> \<le> 2 ^ 7" by (simp add: sm_def)
  then have lo: "to_float (- 128 * sm) = Num (round_binary64 (- 128 * sm))"
    by (rule to_float_finite) simp
  note m = float_mul_const_mono [OF conjunct1 [OF s] conjunct2 [OF s] sm lo]
  have r1: "scaled_video_bitrate t1 d = Return (float_mul (float_sub a2 (Num 128)) (Num sm))"
    unfolding scaled_video_bitrate_unfold n1_def [symmetric] sm_def [symmetric]
    by (simp only: xy(1) d1(1) d2(1) and_then.simps)
  have "Return b = Return (float_mul (float_sub b2 (Num 128)) (Num sm))"
    using u2 by (simp only: b0 xy(2) d1(2) d2(2) and_then.simps)
  then have r2: "b = float_mul (float_sub b2 (Num 128)) (Num sm)"
    by (simp only: outcome.inject)
  show ?thesis using r1 r2 m by blast
qed

lemma scaled_video_bitrate_cases:
  assumes "0 < t" "float_pos d"
  shows "scaled_video_bitrate t d = Raise OverflowError
           \<or> (\<exists>a. scaled_video_bitrate t d = Return a)"
proof (cases "float_of_int (t * 8 * 1024 * 1024)")
  case (Return bits)
  then obtain x y where xy: "bits = Num y" "0 \<le> y"
    using float_of_int_mono [of "t * 8 * 1024 * 1024" "t * 8 * 1024 * 1024" bits] assms(1)
    by auto
  from float_truediv_finite_mono [OF xy(2) order_refl assms(2)] obtain a1
    where d1: "float_truediv (Num y) d = Return a1" "float_le (Num 0) a1" by blast
  obtain a2 where d2: "float_truediv a1 (Num 1000) = Return a2"
    by simp
  show ?thesis unfolding scaled_video_bitrate_unfold
    by (simp only: Return xy(1) d1(1) d2 and_then.simps) simp
next
  case (Raise e)
  then have "e = OverflowError"
    by (auto simp: float_of_int_def split: pyfloat.splits)
  then show ?thesis unfolding scaled_video_bitrate_unfold
    by (simp only: Raise and_then.simps) simp
next
  case (SysExit n)
  then show ?thesis by (auto simp: float_of_int_def split: pyfloat.splits)
qed

lemma spec_video_kbps_scaled:
  "spec_video_kbps t d = and_then (scaled_video_bitrate t d) py_floor"
proof -
  have "and_then (and_then m k) h = and_then m (\<lambda>v. and_then (k v) h)"
    for m :: "pyfloat outcome" and k :: "pyfloat \<Rightarrow> pyfloat outcome"
      and h :: "pyfloat \<Rightarrow> int outcome"
    by (cases m) simp_all
  then show ?thesis
    by (simp add: spec_video_kbps_def scaled_video_bitrate_def Let_def audio_bitrate_kbps_def
        safety_margin_def)
qed

lemma bitrate_in_float_range:
  assumes "0 < t" "t \<le> 2 ^ 900" "1 / 2 ^ 100 \<le> q"
  shows "\<exists>v. target_video_bitrate_kbps t (Num q) = Return v"
proof -
  define B :: rat where "B = 2 ^ 1023"
  define sm :: rat where "sm = 8556839292003942 / 2 ^ 53"
  define n where "n = t * 8 * 1024 * 1024"
  have fin: "to_float x = Num (round_binary64 x) \<and> \<bar>round_binary64 x\<bar> \<le> B" if "\<bar>x\<bar> \<le> B" for x
    using that to_float_finite [of x 1023] round_binary64_bound [of x 1023] by (simp add: B_def)
  have q: "0 < q" using assms(3) by (rule less_le_trans [rotated]) simp
  have B128: "128 \<le> B"
  proof -
    have "(2::rat) ^ 7 \<le> 2 ^ 1023" by (intro power_increasing) simp_all
    then show ?thesis by (simp add: B_def)
  qed
  have "n \<le> 2 ^ 900 * 2 ^ 23" using assms(2) by (simp add: n_def)
  then have "n \<le> 2 ^ 923" by (simp only: power_add [symmetric]) simp
  then have "(of_int n :: rat) \<le> of_int (2 ^ 923)" by (simp only: of_int_le_iff)
  then have n923: "(of_int n :: rat) \<le> 2 ^ 923" by simp
  have n0: "0 \<le> (of_int n :: rat)" using assms(1) by (simp add: n_def)
  define r where "r = round_binary64 (of_int n)"
  have r0: "0 \<le> r" unfolding r_def using n0 by (rule round_binary64_nonneg)
  have "\<bar>of_int n :: rat\<bar> \<le> 2 ^ 923" using n0 n923 by simp
  then have r923: "\<bar>r\<bar> \<le> 2 ^ 923" "to_float (of_int n) = Num r"
    unfolding r_def by (rule round_binary64_bound, simp, rule to_float_finite, simp)
  have bits: "float_of_int n = Return (Num r)"
    by (simp add: float_of_int_def r923(2))
  have "1 / q \<le> 2 ^ 100" using assms(3) q by (simp add: field_simps)
  then have "r * (1 / q) \<le> 2 ^ 923 * 2 ^ 100"
    using r0 r923(1) q by (intro mult_mono) simp_all
  then have "r / q \<le> B" by (simp add: B_def power_add [symmetric])
  moreover have "0 \<le> r / q" using r0 q by simp
  ultimately have a1: "\<bar>r / q\<bar> \<le> B" by simp
  define x1 where "x1 = round_binary64 (r / q)"
  have x1: "to_float (r / q) = Num x1" "\<bar>x1\<bar> \<le> B" using fin [OF a1] by (simp_all add: x1_def)
  have x1n: "0 \<le> x1" unfolding x1_def using r0 q by (intro round_binary64_nonneg) simp
  have "\<bar>x1 / 1000\<bar> \<le> \<bar>x1\<bar>" by simp
  then have a2: "\<bar>x1 / 1000\<bar> \<le> B" using x1(2) by linarith
  define x2 where "x2 = round_binary64 (x1 / 1000)"
  have x2: "to_float (x1 / 1000) = Num x2" "\<bar>x2\<bar> \<le> B" using fin [OF a2] by (simp_all add: x2_def)
  have x2n: "0 \<le> x2" unfolding x2_def using x1n by (intro round_binary64_nonneg) simp
  have a3: "\<bar>x2 - 128\<bar> \<le> B" using x2(2) x2n B128 by linarith
  define x3 where "x3 = round_binary64 (x2 - 128)"
  have x3: "to_float (x2 - 128) = Num x3" "\<bar>x3\<bar> \<le> B" using fin [OF a3] by (simp_all add: x3_def)
  have "\<bar>x3 * sm\<bar> = \<bar>x3\<bar> * sm" by (simp add: abs_mult sm_def)
  also have "\<dots> \<le> \<bar>x3\<bar> * 1" by (intro mult_left_mono) (simp_all add: sm_def)
  finally have a4: "\<bar>x3 * sm\<bar> \<le> B" using x3(2) by simp
  define x4 where "x4 = round_binary64 (x3 * sm)"
  have x4: "to_float (x3 * sm) = Num x4" using fin [OF a4] by (simp add: x4_def)
  have d1: "float_truediv (Num r) (Num q) = Return (Num x1)" using q x1(1) by simp
  have d2: "float_truediv (Num x1) (Num 1000) = Return (Num x2)" using x2(1) by simp
  have d3: "float_sub (Num x2) (Num 128) = Num x3" using x3(1) by simp
  have d4: "float_mul (Num x3) (Num sm) = Num x4" using x4 by simp
  have "scaled_video_bitrate t (Num q) = Return (Num x4)"
    unfolding scaled_video_bitrate_unfold n_def [symmetric] sm_def [symmetric]
    by (simp only: bits d1 d2 d3 d4 and_then.simps)
  then show ?thesis by (simp add: target_video_bitrate_kbps_def)
qed

subsection \<open>The calculation at concrete inputs\<close>

lemma bits_1: "float_of_int (1 * 8 * 1024 * 1024) = Return (Num 8388608)"
  using float_of_int_exact [of 8388608] by simp

lemma per_second_1_600:
  "float_truediv (Num 8388608) (Num 600) = Return (Num (7686143364045647 / 2 ^ 39))"
  using to_float_cert [of "- 39" "8388608 / 600" 7686143364045647] by simp

lemma total_1_600:
  "float_truediv (Num (7686143364045647 / 2 ^ 39)) (Num 1000)
     = Return (Num (7870610804782743 / 2 ^ 49))"
  using to_float_cert [of "- 49" "7686143364045647 / 2 ^ 39 / 1000" 7870610804782743] by simp

lemma video_1_600:
  "float_sub (Num (7870610804782743 / 2 ^ 49)) (Num 128) = Num (- 8023372904143149 / 2 ^ 46)"
  using to_float_cert [of "- 46" "7870610804782743 / 2 ^ 49 - 128" "- 8023372904143149"] by simp

lemma margin_1_600:
  "float_mul (Num (- 8023372904143149 / 2 ^ 46)) (Num (8556839292003942 / 2 ^ 53))
     = Num (- 7622204258935991 / 2 ^ 46)"
  using to_float_cert [of "- 46" "- 8023372904143149 / 2 ^ 46 * (8556839292003942 / 2 ^ 53)"
      "- 7622204258935991"] by simp

lemma scaled_1_600:
  "scaled_video_bitrate 1 (Num 600) = Return (Num (- 7622204258935991 / 2 ^ 46))"
  unfolding scaled_video_bitrate_unfold bits_1 and_then.simps per_second_1_600
    total_1_600 video_1_600 margin_1_600 ..

lemma bitrate_1_600: "target_video_bitrate_kbps 1 (Num 600) = Return (- 108)"
  unfolding target_video_bitrate_kbps_def scaled_1_600
  by (simp add: ceiling_eq_iff)

lemma floor_1_600: "spec_video_kbps 1 (Num 600) = Return (- 109)"
  unfolding spec_video_kbps_scaled scaled_1_600
  by (simp add: floor_eq_iff)

lemma per_second_1_65:
  "float_truediv (Num 8388608) (Num (131 / 2)) = Return (Num (8800927516082801 / 2 ^ 36))"
  using to_float_cert [of "- 36" "8388608 / (131 / 2)" 8800927516082801] by simp

lemma total_1_65:
  "float_truediv (Num (8800927516082801 / 2 ^ 36)) (Num 1000)
     = Return (Num (4506074888234394 / 2 ^ 45))"
  using to_float_cert [of "- 45" "8800927516082801 / 2 ^ 36 / 1000" 4506074888234394] by simp

lemma video_1_65:
  "float_sub (Num (4506074888234394 / 2 ^ 45)) (Num 128) = Num (5069334249263104 / 2 ^ 56)"
  using to_float_cert [of "- 56" "4506074888234394 / 2 ^ 45 - 128" 5069334249263104] by simp

lemma margin_1_65:
  "float_mul (Num (5069334249263104 / 2 ^ 56)) (Num (8556839292003942 / 2 ^ 53))
     = Num (4815867536799949 / 2 ^ 56)"
  using to_float_cert [of "- 56" "5069334249263104 / 2 ^ 56 * (8556839292003942 / 2 ^ 53)"
      4815867536799949] by simp

lemma scaled_1_65:
  "scaled_video_bitrate 1 (Num (131 / 2)) = Return (Num (4815867536799949 / 2 ^ 56))"
  unfolding scaled_video_bitrate_unfold bits_1 and_then.simps per_second_1_65
    total_1_65 video_1_65 margin_1_65 ..

lemma bitrate_1_65: "target_video_bitrate_kbps 1 (Num (131 / 2)) = Return 0"
  unfolding target_video_bitrate_kbps_def scaled_1_65
  by (simp add: floor_eq_iff)

lemma bitrate_80_600: "target_video_bitrate_kbps 80 (Num 600) = Return 940"
  unfolding target_video_bitrate_kbps_def scaled_80_600
  by (simp add: floor_eq_iff)

section \<open>The paths through the script\<close>

lemma trace_emit: "trace (emit ev s) = trace s @ [ev]"
  by (simp add: emit_def)

lemma files_emit: "files (emit ev s) = files s"
  by (simp add: emit_def)

lemma and_then_Return:
  assumes "and_then m k = Return r"
  obtains v where "m = Return v" "k v = Return r"
  using assms by (cases m) auto

lemma int_truediv_mb:
  assumes "n < 2 ^ 63"
  shows "int_truediv (int n) (1024 * 1024) = Return (Num (round_binary64 (of_nat n / 1048576)))"
proof -
  have "(of_nat n :: rat) < of_nat (2 ^ 63)" using assms by (simp only: of_nat_less_iff)
  then have "\<bar>of_nat n / 1048576 :: rat\<bar> \<le> 2 ^ 63" by simp
  then have "to_float (of_nat n / 1048576) = Num (round_binary64 (of_nat n / 1048576))"
    by (rule to_float_finite) simp
  then show ?thesis by (simp add: int_truediv_def)
qed

lemma mb_exact:
  assumes "n < 2 ^ 53"
  shows "round_binary64 (of_nat n / 1048576) = of_nat n / 1048576"
proof -
  have "\<bar>int n\<bar> < 2 ^ 53" using assms by simp
  from round_binary64_exact [OF this, of "- 20"] show ?thesis by simp
qed

lemma get_file_size_mb_existing:
  assumes "files s p = Some n"
  shows "get_file_size_mb p s = (int_truediv (int n) (1024 * 1024), emit (Getsize p) s)"
  using assms by (simp add: get_file_size_mb_def os_path_getsize_def)

lemma get_file_size_mb_missing:
  assumes "files s p = None"
  shows "get_file_size_mb p s = (Raise OSError, emit (Getsize p) s)"
  using assms by (simp add: get_file_size_mb_def os_path_getsize_def)



lemma get_video_duration_zero:
  assumes "sys (ffprobe_cmd f) (files s) = (Exited 0 out, fs)"
  shows "get_video_duration sys f s =
           (py_float (py_strip out), emit (Run (ffprobe_cmd f)) (s\<lparr>files := fs\<rparr>))"
proof -
  have "subprocess_run sys (ffprobe_cmd f) s
          = (Return out, emit (Run (ffprobe_cmd f)) (s\<lparr>files := fs\<rparr>))"
    using assms by (simp add: subprocess_run_def)
  then show ?thesis by (simp add: get_video_duration_def)
qed

lemma get_video_duration_not_started:
  assumes "sys (ffprobe_cmd f) (files s) = (Launch_failed, fs)"
  shows "get_video_duration sys f s = (Raise OSError, emit (Run (ffprobe_cmd f)) s)"
  using assms by (simp add: get_video_duration_def subprocess_run_def)

lemma compress_video_missing:
  assumes "files s input_file = None"
  shows "compress_video sys input_file output_file target_size_mb s =
           (SysExit 1, emit (Print (Input_not_found input_file)) (emit (Path_exists input_file) s))"
  using assms by (simp add: compress_video_def os_path_exists_def domIff)

lemma compress_video_small:
  assumes "files s input_file = Some n"
    and "int_truediv (int n) (1024 * 1024) = Return current_size_mb"
    and "float_le_int current_size_mb target_size_mb"
  shows "compress_video sys input_file output_file target_size_mb s =
           (Return (),
            emit (Print (No_compression_needed target_size_mb))
              (emit (Print (Current_size current_size_mb))
                (emit (Getsize input_file) (emit (Path_exists input_file) s))))"
proof -
  have "get_file_size_mb input_file (emit (Path_exists input_file) s)
          = (Return current_size_mb, emit (Getsize input_file) (emit (Path_exists input_file) s))"
    using assms(1,2) get_file_size_mb_existing [of "emit (Path_exists input_file) s" input_file n]
    by (simp add: files_emit)
  then show ?thesis
    using assms(1,3) by (simp add: compress_video_def os_path_exists_def domIff Let_def)
qed

lemma compress_video_large:
  assumes "files s input_file = Some n"
    and "int_truediv (int n) (1024 * 1024) = Return current_size_mb"
    and "\<not> float_le_int current_size_mb target_size_mb"
    and "s3 = emit (Print (Current_size current_size_mb))
                (emit (Getsize input_file) (emit (Path_exists input_file) s))"
  shows "compress_video sys input_file output_file target_size_mb s =
           (case get_video_duration sys input_file s3 of
              (Raise e, s4) \<Rightarrow> (Raise e, s4)
            | (SysExit k, s4) \<Rightarrow> (SysExit k, s4)
            | (Return duration, s4) \<Rightarrow>
                (case target_video_bitrate_kbps target_size_mb duration of
                   Raise e \<Rightarrow> (Raise e, emit (Print (Duration duration)) s4)
                 | SysExit k \<Rightarrow> (SysExit k, emit (Print (Duration duration)) s4)
                 | Return video_kbps \<Rightarrow>
                     encode_and_report sys input_file output_file current_size_mb video_kbps
                       (emit (Print Compressing)
                         (emit (Print (Target_audio_bitrate audio_bitrate_kbps))
                           (emit (Print (Target_video_bitrate video_kbps))
                             (emit (Print (Duration duration)) s4))))))"
proof -
  have "get_file_size_mb input_file (emit (Path_exists input_file) s)
          = (Return current_size_mb, emit (Getsize input_file) (emit (Path_exists input_file) s))"
    using assms(1,2) get_file_size_mb_existing [of "emit (Path_exists input_file) s" input_file n]
    by (simp add: files_emit)
  then show ?thesis
    using assms(1,3,4)
    by (simp add: compress_video_def os_path_exists_def domIff Let_def
        split: prod.split outcome.split)
qed

subsection \<open>Reaching and leaving the encoder\<close>

lemma state_update_all: "s\<lparr>files := fs, trace := tr\<rparr> = \<lparr>files = fs, trace = tr\<rparr>"
  by (cases s) simp

lemma state_update_trace: "s\<lparr>trace := tr\<rparr> = \<lparr>files = files s, trace = tr\<rparr>"
  by (cases s) simp

lemma compress_video_encoding:
  assumes "files s input_file = Some n"
    and "int_truediv (int n) (1024 * 1024) = Return current_size_mb"
    and "\<not> float_le_int current_size_mb target_size_mb"
    and "sys (ffprobe_cmd input_file) (files s) = (Exited 0 out, fs1)"
    and "py_float (py_strip out) = Return duration"
    and "target_video_bitrate_kbps target_size_mb duration = Return video_kbps"
  shows "compress_video sys input_file output_file target_size_mb s =
           encode_and_report sys input_file output_file current_size_mb video_kbps
             \<lparr>files = fs1,
              trace = trace s @
                [Path_exists input_file, Getsize input_file, Print (Current_size current_size_mb),
                 Run (ffprobe_cmd input_file), Print (Duration duration),
                 Print (Target_video_bitrate video_kbps), Print (Target_audio_bitrate 128),
                 Print Compressing]\<rparr>"
proof -
  define s3 where "s3 = emit (Print (Current_size current_size_mb))
                (emit (Getsize input_file) (emit (Path_exists input_file) s))"
  have "sys (ffprobe_cmd input_file) (files s3) = (Exited 0 out, fs1)"
    using assms(4) by (simp add: s3_def files_emit)
  then have "get_video_duration sys input_file s3 =
      (Return duration, emit (Run (ffprobe_cmd input_file)) (s3\<lparr>files := fs1\<rparr>))"
    using assms(5) by (simp add: get_video_duration_zero)
  then show ?thesis
    unfolding compress_video_large [OF assms(1-3) s3_def]
    by (simp add: assms(6) audio_bitrate_kbps_def) (simp add: s3_def emit_def state_update_all)
qed

lemma encode_and_report_failed:
  assumes "sys (ffmpeg_cmd input_file video_kbps output_file) (files s) = (Exited rc out, fs2)"
    and "rc \<noteq> 0"
  shows "encode_and_report sys input_file output_file current_size_mb video_kbps s =
           (SysExit 1,
            \<lparr>files = fs2,
             trace = trace s @ [Run (ffmpeg_cmd input_file video_kbps output_file),
                                Print (Error_during_compression rc)]\<rparr>)"
  using assms by (simp add: encode_and_report_def subprocess_run_def emit_def state_update_all)

lemma encode_and_report_not_started:
  assumes "sys (ffmpeg_cmd input_file video_kbps output_file) (files s) = (Launch_failed, fs2)"
  shows "encode_and_report sys input_file output_file current_size_mb video_kbps s =
           (Raise OSError, emit (Run (ffmpeg_cmd input_file video_kbps output_file)) s)"
  using assms by (simp add: encode_and_report_def subprocess_run_def)

lemma int_truediv_raises:
  assumes "int_truediv a b = Raise e"
  shows "e = ZeroDivisionError \<or> e = OverflowError"
  using assms by (auto simp: int_truediv_def split: if_splits pyfloat.splits)

lemma float_truediv_raises:
  assumes "float_truediv a b = Raise e"
  shows "e = ZeroDivisionError"
  using assms by (cases a; cases b) (auto split: if_splits)

lemma report_compression_measured:
  assumes "files s output_file = Some m"
    and "int_truediv (int m) (1024 * 1024) = Return compressed_size_mb"
    and "float_truediv (float_sub current_size_mb compressed_size_mb) current_size_mb
           = Return ratio"
  shows "report_compression current_size_mb output_file s =
           (Return (),
            \<lparr>files = files s,
             trace = trace s @
               [Getsize output_file, Print Compression_complete,
                Print (Original_size current_size_mb), Print (Compressed_size compressed_size_mb),
                Print (Size_reduction (float_mul ratio (Num 100))),
                Print (Output_file output_file)]\<rparr>)"
  using assms
  by (simp add: report_compression_def get_file_size_mb_existing Let_def)
    (simp add: emit_def state_update_trace)

lemma encode_and_report_done:
  assumes "sys (ffmpeg_cmd input_file video_kbps output_file) (files s) = (Exited 0 out, fs2)"
    and "fs2 output_file = Some m"
    and "int_truediv (int m) (1024 * 1024) = Return compressed_size_mb"
    and "float_truediv (float_sub current_size_mb compressed_size_mb) current_size_mb
           = Return ratio"
  shows "encode_and_report sys input_file output_file current_size_mb video_kbps s =
           (Return (),
            \<lparr>files = fs2,
             trace = trace s @
               [Run (ffmpeg_cmd input_file video_kbps output_file),
                Getsize output_file, Print Compression_complete,
                Print (Original_size current_size_mb), Print (Compressed_size compressed_size_mb),
                Print (Size_reduction (float_mul ratio (Num 100))),
                Print (Output_file output_file)]\<rparr>)"
proof -
  define s1 where "s1 = emit (Run (ffmpeg_cmd input_file video_kbps output_file)) (s\<lparr>files := fs2\<rparr>)"
  have run: "subprocess_run sys (ffmpeg_cmd input_file video_kbps output_file) s = (Return out, s1)"
    using assms(1) by (simp add: subprocess_run_def s1_def)
  have "files s1 output_file = Some m" using assms(2) by (simp add: s1_def files_emit)
  from report_compression_measured [OF this assms(3,4)]
  show ?thesis
    by (simp add: encode_and_report_def run) (simp add: s1_def emit_def state_update_all)
qed

lemma commands_run_append: "commands_run (xs @ ys) = commands_run xs @ commands_run ys"
  by (induction xs rule: commands_run.induct) simp_all

lemma report_compression_trace:
  "\<exists>tr. trace (snd (report_compression current_size_mb output_file s)) = trace s @ tr
        \<and> commands_run tr = []"
  by (auto simp: report_compression_def get_file_size_mb_def os_path_getsize_def emit_def Let_def
      split: option.splits outcome.splits)

lemma encode_and_report_trace:
  "\<exists>tr. trace (snd (encode_and_report sys input_file output_file current_size_mb video_kbps s))
          = trace s @ Run (ffmpeg_cmd input_file video_kbps output_file) # tr
        \<and> commands_run tr = []"
proof (cases "sys (ffmpeg_cmd input_file video_kbps output_file) (files s)")
  case (Pair p fs2)
  show ?thesis
  proof (cases p)
    case Launch_failed
    with Pair show ?thesis
      by (simp add: encode_and_report_not_started trace_emit)
  next
    case (Exited rc out)
    show ?thesis
    proof (cases "rc = 0")
      case False
      with Pair Exited show ?thesis
        by (simp add: encode_and_report_failed)
    next
      case True
      define s1 where
        "s1 = emit (Run (ffmpeg_cmd input_file video_kbps output_file)) (s\<lparr>files := fs2\<rparr>)"
      have run: "subprocess_run sys (ffmpeg_cmd input_file video_kbps output_file) s
                   = (Return out, s1)"
        using Pair Exited True by (simp add: subprocess_run_def s1_def)
      obtain tr where tr: "trace (snd (report_compression current_size_mb output_file s1))
          = trace s1 @ tr" "commands_run tr = []"
        using report_compression_trace by blast
      obtain r s2 where r: "report_compression current_size_mb output_file s1 = (r, s2)"
        by (cases "report_compression current_size_mb output_file s1")
      have "trace (snd (encode_and_report sys input_file output_file current_size_mb video_kbps s))
              = trace s2 \<or>
            (\<exists>rc'. trace (snd (encode_and_report sys input_file output_file current_size_mb
                 video_kbps s)) = trace s2 @ [Print (Error_during_compression rc')])"
        by (auto simp: encode_and_report_def run r trace_emit split: outcome.splits py_exc.splits)
      moreover have "trace s2 = trace s @ Run (ffmpeg_cmd input_file video_kbps output_file) # tr"
        using tr(1) r by (simp add: s1_def trace_emit)
      ultimately show ?thesis
        using tr(2) by (auto simp: commands_run_append)
    qed
  qed
qed

subsection \<open>Concrete sizes, probe outputs and reductions\<close>

lemma to_float_small_int:
  assumes "\<bar>n\<bar> < 2 ^ 53"
  shows "to_float (of_int n) = Num (of_int n)"
proof -
  have "round_binary64 (of_int n) = of_int n"
    using round_binary64_exact [of n 0] assms by simp
  moreover have "\<bar>of_int n :: rat\<bar> \<le> 2 ^ 53"
    using assms by (metis of_int_abs of_int_le_numeral_power_cancel_iff less_imp_le)
  ultimately show ?thesis
    using to_float_finite [of "of_int n" 53] by simp
qed

lemma strip_probe_output: "py_strip ''600.000000\<newline>'' = ''600.000000''"
  by (simp add: py_strip_def is_space_def)

lemma parse_probe_output: "parse_floatnumber ''600.000000'' = Some 600"
  by (simp add: parse_floatnumber_def digit_or_underscore_def is_digit_def parse_exponent_def
      digits_value_def digit_value_def)

lemma float_probe_output: "py_float ''600.000000'' = Return (Num 600)"
  using to_float_small_int [of 600]
  by (simp add: py_float_def strip_probe_output [simplified] parse_probe_output ascii_lower_def
      py_strip_def is_space_def)




lemma size_2_mb: "int_truediv (int 2097152) (1024 * 1024) = Return (Num 2)"
  using int_truediv_mb [of 2097152] mb_exact [of 2097152] by simp

lemma size_40_mb: "int_truediv (int 41943040) (1024 * 1024) = Return (Num 40)"
  using int_truediv_mb [of 41943040] mb_exact [of 41943040] by simp

lemma size_80_mb: "int_truediv (int 83886080) (1024 * 1024) = Return (Num 80)"
  using int_truediv_mb [of 83886080] mb_exact [of 83886080] by simp

lemma size_100_mb: "int_truediv (int 104857600) (1024 * 1024) = Return (Num 100)"
  using int_truediv_mb [of 104857600] mb_exact [of 104857600] by simp

lemma saved_100_40: "float_sub (Num 100) (Num 40) = Num 60"
  using to_float_small_int [of 60] by simp

lemma ratio_100_40:
  "float_truediv (Num 60) (Num 100) = Return (Num (5404319552844595 / 2 ^ 53))"
  using to_float_cert [of "- 53" "60 / 100" 5404319552844595] by simp

lemma percent_100_40: "float_mul (Num (5404319552844595 / 2 ^ 53)) (Num 100) = Num 60"
  using to_float_cert [of "- 47" "5404319552844595 / 2 ^ 53 * 100" 8444249301319680] by simp

lemma str_minus_108: "str_of_int (- 108) = ''-108''"
  by (simp add: str_of_int_def)

subsection \<open>A failing probe, and the entry point\<close>


lemma ffmpeg_cmd_bitrate_argument:
  "ffmpeg_cmd input_file video_kbps output_file ! 6 = str_of_int video_kbps @ ''k''"
  by (simp add: ffmpeg_cmd_def)

lemma main_unfold:
  "main sys s =
     compress_video sys input_video output_video target_size
       \<lparr>files = files s,
        trace = trace s @
          [Print Banner_rule, Print Banner_title, Print Banner_rule,
           Print (Banner_input input_video), Print (Banner_output output_video),
           Print (Banner_target target_size), Print Banner_rule, Print Blank_line]\<rparr>"
  by (simp add: main_def emit_def state_update_trace)

lemma main_missing_input:
  assumes "files s input_video = None"
  shows "process_status sys s = 1"
proof -
  have "files \<lparr>files = files s,
        trace = trace s @
          [Print Banner_rule, Print Banner_title, Print Banner_rule,
           Print (Banner_input input_video), Print (Banner_output output_video),
           Print (Banner_target target_size), Print Banner_rule, Print Blank_line]\<rparr>
          input_video = None"
    using assms by simp
  then show ?thesis
    unfolding process_status_def main_unfold by (simp add: compress_video_missing)
qed

lemma main_small_input:
  assumes "files s input_video = Some n"
    and "int_truediv (int n) (1024 * 1024) = Return current_size_mb"
    and "float_le_int current_size_mb target_size"
  shows "process_status sys s = 0"
proof -
  have f: "files \<lparr>files = files s,
        trace = trace s @
          [Print Banner_rule, Print Banner_title, Print Banner_rule,
           Print (Banner_input input_video), Print (Banner_output output_video),
           Print (Banner_target target_size), Print Banner_rule, Print Blank_line]\<rparr>
          input_video = Some n"
    using assms(1) by simp
  show ?thesis
    unfolding process_status_def main_unfold compress_video_small [OF f assms(2,3)] by simp
qed

section \<open>Overflow and the cells of truncation\<close>

lemma float_of_int_overflow:
  assumes "2 ^ 1024 \<le> n"
  shows "float_of_int n = Raise OverflowError"
proof -
  have e: "round_binary64 (2 ^ 1024) = 2 ^ 1024"
    using round_binary64_exact [of 1 1024] by simp
  have "(of_int (2 ^ 1024) :: rat) \<le> of_int n" using assms by (simp only: of_int_le_iff)
  then have "round_binary64 (2 ^ 1024) \<le> round_binary64 (of_int n)"
    by (intro round_binary64_mono) simp
  then have "2 ^ 1024 \<le> round_binary64 (of_int n)" by (simp only: e)
  then have "to_float (of_int n) = PosInf" by (simp add: to_float_def Let_def)
  then show ?thesis by (simp add: float_of_int_def)
qed

lemma bitrate_overflow_2_1001:
  "target_video_bitrate_kbps (2 ^ 1001) (Num 600) = Raise OverflowError"
proof -
  have "(2::int) ^ 1024 = 2 ^ 1001 * 2 ^ 23" by (simp only: power_add [symmetric]) simp
  then have "(2::int) ^ 1024 \<le> 2 ^ 1001 * 8 * 1024 * 1024" by simp
  then have "float_of_int (2 ^ 1001 * 8 * 1024 * 1024) = Raise OverflowError"
    by (rule float_of_int_overflow)
  then show ?thesis
    unfolding target_video_bitrate_kbps_def scaled_video_bitrate_def Let_def
    by (simp only: and_then.simps)
qed

lemma scaled_video_bitrate_steps:
  assumes "scaled_video_bitrate t d = Return a"
  shows "\<exists>bits per_second total.
           float_of_int (t * 8 * 1024 * 1024) = Return bits
         \<and> float_truediv bits d = Return per_second
         \<and> float_truediv per_second (Num 1000) = Return total
         \<and> float_mul (float_sub total (Num 128)) (to_float (95 / 100)) = a"
proof -
  have u: "and_then (float_of_int (t * 8 * 1024 * 1024)) (\<lambda>bits.
     and_then (float_truediv bits d) (\<lambda>per_second.
     and_then (float_truediv per_second (Num 1000)) (\<lambda>total.
     Return (float_mul (float_sub total (Num 128)) (to_float (95 / 100)))))) = Return a"
    using assms unfolding scaled_video_bitrate_def Let_def audio_bitrate_kbps_def safety_margin_def
    by simp
  from u obtain bits where bits:
    "float_of_int (t * 8 * 1024 * 1024) = Return bits"
    "and_then (float_truediv bits d) (\<lambda>per_second.
     and_then (float_truediv per_second (Num 1000)) (\<lambda>total.
     Return (float_mul (float_sub total (Num 128)) (to_float (95 / 100))))) = Return a"
    by (rule and_then_Return)
  from bits(2) obtain per_second where ps:
    "float_truediv bits d = Return per_second"
    "and_then (float_truediv per_second (Num 1000)) (\<lambda>total.
     Return (float_mul (float_sub total (Num 128)) (to_float (95 / 100)))) = Return a"
    by (rule and_then_Return)
  from ps(2) obtain total where tot:
    "float_truediv per_second (Num 1000) = Return total"
    "Return (float_mul (float_sub total (Num 128)) (to_float (95 / 100))) = Return a"
    by (rule and_then_Return)
  have "float_mul (float_sub total (Num 128)) (to_float (95 / 100)) = a"
    using tot(2) by (simp only: outcome.inject)
  with bits(1) ps(1) tot(1) show ?thesis by blast
qed

lemma bitrate_outcomes:
  assumes "0 < t" "float_pos d"
  shows "target_video_bitrate_kbps t d = Raise OverflowError
         \<or> (\<exists>x. scaled_video_bitrate t d = Return (Num x)
                \<and> target_video_bitrate_kbps t d = Return (if 0 \<le> x then \<lfloor>x\<rfloor> else \<lceil>x\<rceil>))"
proof -
  from scaled_video_bitrate_cases [OF assms] show ?thesis
  proof
    assume "scaled_video_bitrate t d = Raise OverflowError"
    then show ?thesis by (simp add: target_video_bitrate_kbps_def)
  next
    assume "\<exists>a. scaled_video_bitrate t d = Return a"
    then obtain a where a: "scaled_video_bitrate t d = Return a" ..
    from scaled_video_bitrate_pair [OF assms(1) order_refl assms(2) a]
    obtain a' lo where "scaled_video_bitrate t d = Return a'" "float_le (Num lo) a'" by blast
    then have "float_le (Num lo) a" using a by simp
    then consider x where "a = Num x" | "a = PosInf" by (rule float_le_Num_cases)
    then show ?thesis
      by cases (simp_all add: target_video_bitrate_kbps_def a)
  qed
qed

lemma truncation_cell:
  fixes x1 x2 :: rat
  assumes "x1 \<le> x2"
    and "(if 0 \<le> x1 then \<lfloor>x1\<rfloor> else \<lceil>x1\<rceil>) = (if 0 \<le> x2 then \<lfloor>x2\<rfloor> else \<lceil>x2\<rceil>)"
  shows "x2 - x1 < (if (if 0 \<le> x2 then \<lfloor>x2\<rfloor> else \<lceil>x2\<rceil>) = 0 then 2 else 1)"
proof -
  have f: "of_int \<lfloor>y\<rfloor> \<le> y" "y < of_int \<lfloor>y\<rfloor> + 1" for y :: rat by linarith+
  have c: "of_int \<lceil>y\<rceil> - 1 < y" "y \<le> of_int \<lceil>y\<rceil>" for y :: rat by linarith+
  consider "0 \<le> x1" | "x2 < 0" | "x1 < 0" "0 \<le> x2" using assms(1) by linarith
  then show ?thesis
  proof cases
    case 1
    then have "0 \<le> x2" using assms(1) by simp
    with 1 assms(2) have "\<lfloor>x1\<rfloor> = \<lfloor>x2\<rfloor>" by simp
    then have "(of_int \<lfloor>x1\<rfloor> :: rat) = of_int \<lfloor>x2\<rfloor>" by simp
    then have "x2 - x1 < 1" using f [of x1] f [of x2] by linarith
    then show ?thesis by simp
  next
    case 2
    then have "x1 < 0" using assms(1) by simp
    with 2 assms(2) have "\<lceil>x1\<rceil> = \<lceil>x2\<rceil>" by simp
    then have "(of_int \<lceil>x1\<rceil> :: rat) = of_int \<lceil>x2\<rceil>" by simp
    then have "x2 - x1 < 1" using c [of x1] c [of x2] by linarith
    then show ?thesis by simp
  next
    case 3
    with assms(2) have e: "\<lceil>x1\<rceil> = \<lfloor>x2\<rfloor>" by simp
    have "\<lceil>x1\<rceil> \<le> 0" using 3(1) by simp
    moreover have "0 \<le> \<lfloor>x2\<rfloor>" using 3(2) by simp
    ultimately have z: "\<lceil>x1\<rceil> = 0" "\<lfloor>x2\<rfloor> = 0" using e by linarith+
    have "(of_int \<lceil>x1\<rceil> :: rat) = 0" "(of_int \<lfloor>x2\<rfloor> :: rat) = 0" using z by simp_all
    then have "x2 - x1 < 2" using c [of x1] f [of x2] by linarith
    then show ?thesis using 3(2) z by simp
  qed
qed

lemma truncation_mono:
  fixes x1 x2 :: rat
  assumes "x1 \<le> x2"
  shows "(if 0 \<le> x1 then \<lfloor>x1\<rfloor> else \<lceil>x1\<rceil>) \<le> (if 0 \<le> x2 then \<lfloor>x2\<rfloor> else \<lceil>x2\<rceil>)"
proof -
  have "\<lceil>x1\<rceil> \<le> \<lfloor>x2\<rfloor>" if "x1 < 0" "0 \<le> x2"
  proof -
    have "\<lceil>x1\<rceil> \<le> 0" using that(1) by simp
    moreover have "0 \<le> \<lfloor>x2\<rfloor>" using that(2) by simp
    ultimately show ?thesis by linarith
  qed
  then show ?thesis using assms by (auto intro: floor_mono ceiling_mono)
qed

section \<open>The claims\<close>

text \<open>
  C1. For a positive target size and a positive duration the bitrate calculation either
  raises \<^verbatim>\<open>OverflowError\<close> (the size or the quotient leaves the range of a float, which
  cannot happen for a target up to \<open>2 ^ 900\<close> MB and a duration of at least
  \<open>1 / 2 ^ 100\<close> seconds) or returns the value \<open>x\<close> of
  \<^verbatim>\<open>((target_size_mb * 8 * 1024 * 1024) / duration / 1000 - 128) * 0.95\<close>
  truncated toward zero. The specification's \<open>floor\<close> of the same \<open>x\<close> is \<open>\<lfloor>x\<rfloor>\<close>, which
  is the code's result exactly when \<open>x\<close> is not negative or is an integer.
\<close>

theorem bitrate_is_formula_truncated_toward_zero:
  assumes "0 < target_size_mb" "float_pos duration"
  shows "(target_video_bitrate_kbps target_size_mb duration = Raise OverflowError
          \<or> (\<exists>bits per_second total x.
               float_of_int (target_size_mb * 8 * 1024 * 1024) = Return bits
             \<and> float_truediv bits duration = Return per_second
             \<and> float_truediv per_second (Num 1000) = Return total
             \<and> float_mul (float_sub total (Num 128)) (to_float (95 / 100)) = Num x
             \<and> target_video_bitrate_kbps target_size_mb duration
                 = Return (if 0 \<le> x then \<lfloor>x\<rfloor> else \<lceil>x\<rceil>)
             \<and> spec_video_kbps target_size_mb duration = Return \<lfloor>x\<rfloor>))
         \<and> (\<forall>q. target_size_mb \<le> 2 ^ 900 \<and> duration = Num q \<and> 1 / 2 ^ 100 \<le> q \<longrightarrow>
                target_video_bitrate_kbps target_size_mb duration \<noteq> Raise OverflowError)"
proof -
  have range: "target_video_bitrate_kbps target_size_mb duration \<noteq> Raise OverflowError"
    if "target_size_mb \<le> 2 ^ 900" "duration = Num q" "1 / 2 ^ 100 \<le> q" for q
    using bitrate_in_float_range [OF assms(1) that(1,3)] that(2) by auto
  have "target_video_bitrate_kbps target_size_mb duration = Raise OverflowError
          \<or> (\<exists>bits per_second total x.
               float_of_int (target_size_mb * 8 * 1024 * 1024) = Return bits
             \<and> float_truediv bits duration = Return per_second
             \<and> float_truediv per_second (Num 1000) = Return total
             \<and> float_mul (float_sub total (Num 128)) (to_float (95 / 100)) = Num x
             \<and> target_video_bitrate_kbps target_size_mb duration
                 = Return (if 0 \<le> x then \<lfloor>x\<rfloor> else \<lceil>x\<rceil>)
             \<and> spec_video_kbps target_size_mb duration = Return \<lfloor>x\<rfloor>)"
    (is ?main)
    using scaled_video_bitrate_cases [OF assms]
  proof
    assume "scaled_video_bitrate target_size_mb duration = Raise OverflowError"
    then show ?main by (simp add: target_video_bitrate_kbps_def)
  next
    assume "\<exists>a. scaled_video_bitrate target_size_mb duration = Return a"
    then obtain a where a: "scaled_video_bitrate target_size_mb duration = Return a" ..
    from scaled_video_bitrate_pair [OF assms(1) order_refl assms(2) a]
    obtain a' lo where "scaled_video_bitrate target_size_mb duration = Return a'"
      "float_le (Num lo) a'" by blast
    then have "float_le (Num lo) a" using a by simp
    then consider x where "a = Num x" | "a = PosInf" by (rule float_le_Num_cases)
    then show ?main
    proof cases
      case 2
      then show ?main by (simp add: target_video_bitrate_kbps_def a)
    next
      case 1
      have u: "and_then (float_of_int (target_size_mb * 8 * 1024 * 1024)) (\<lambda>bits.
         and_then (float_truediv bits duration) (\<lambda>per_second.
         and_then (float_truediv per_second (Num 1000)) (\<lambda>total.
         Return (float_mul (float_sub total (Num 128)) (to_float (95 / 100)))))) = Return a"
        using a unfolding scaled_video_bitrate_def Let_def audio_bitrate_kbps_def safety_margin_def
        by simp
      from u obtain bits where bits:
        "float_of_int (target_size_mb * 8 * 1024 * 1024) = Return bits"
        "and_then (float_truediv bits duration) (\<lambda>per_second.
         and_then (float_truediv per_second (Num 1000)) (\<lambda>total.
         Return (float_mul (float_sub total (Num 128)) (to_float (95 / 100))))) = Return a"
        by (rule and_then_Return)
      from bits(2) obtain per_second where ps:
        "float_truediv bits duration = Return per_second"
        "and_then (float_truediv per_second (Num 1000)) (\<lambda>total.
         Return (float_mul (float_sub total (Num 128)) (to_float (95 / 100)))) = Return a"
        by (rule and_then_Return)
      from ps(2) obtain total where tot:
        "float_truediv per_second (Num 1000) = Return total"
        "Return (float_mul (float_sub total (Num 128)) (to_float (95 / 100))) = Return a"
        by (rule and_then_Return)
      have x: "float_mul (float_sub total (Num 128)) (to_float (95 / 100)) = Num x"
        using tot(2) 1 by (simp only: outcome.inject)
      have "target_video_bitrate_kbps target_size_mb duration
              = Return (if 0 \<le> x then \<lfloor>x\<rfloor> else \<lceil>x\<rceil>)"
        by (simp add: target_video_bitrate_kbps_def a 1)
      moreover have "spec_video_kbps target_size_mb duration = Return \<lfloor>x\<rfloor>"
        by (simp add: spec_video_kbps_scaled a 1)
      ultimately show ?main using bits(1) ps(1) tot(1) x by blast
    qed
  qed
  then show ?thesis using range by blast
qed

theorem bitrate_is_formula_truncated_toward_zero_witness:
  "(0::int) < 80 \<and> float_pos (Num 600)
   \<and> (\<exists>bits per_second total x.
               float_of_int (80 * 8 * 1024 * 1024) = Return bits
             \<and> float_truediv bits (Num 600) = Return per_second
             \<and> float_truediv per_second (Num 1000) = Return total
             \<and> float_mul (float_sub total (Num 128)) (to_float (95 / 100)) = Num x
             \<and> target_video_bitrate_kbps 80 (Num 600)
                 = Return (if 0 \<le> x then \<lfloor>x\<rfloor> else \<lceil>x\<rceil>)
             \<and> spec_video_kbps 80 (Num 600) = Return \<lfloor>x\<rfloor>)"
proof -
  have h1: "(0::int) < 80" by simp
  have h2: "float_pos (Num 600)" by simp
  have "target_video_bitrate_kbps 80 (Num 600) \<noteq> Raise OverflowError"
    by (simp add: bitrate_80_600)
  with conjunct1 [OF bitrate_is_formula_truncated_toward_zero [OF h1 h2]] show ?thesis
    using h1 h2 by blast
qed

theorem bitrate_differs_from_floor_at_1_mb_600_s:
  "(0::int) < 1 \<and> float_pos (Num 600)
   \<and> target_video_bitrate_kbps 1 (Num 600) = Return (- 108)
   \<and> spec_video_kbps 1 (Num 600) = Return (- 109)"
  by (simp add: bitrate_1_600 floor_1_600)

text \<open>
  C2. With \<^verbatim>\<open>target_size_mb = 80\<close> and a duration of 600 seconds the bitrate calculation
  returns 940: the budget is about 1118.48 kbps, less 128 is about 990.48, times 0.95 is
  about 940.957, and \<^verbatim>\<open>int\<close> drops the fraction.
\<close>

theorem bitrate_80_mb_600_s_is_940:
  "target_video_bitrate_kbps 80 (Num 600) = Return 940"
  by (rule bitrate_80_600)

theorem bitrate_80_mb_600_s_is_not_941:
  "target_video_bitrate_kbps 80 (Num 600) \<noteq> Return 941"
  by (simp add: bitrate_80_600)

text \<open>
  C3. For a fixed positive duration and target sizes \<open>0 < t1 < t2\<close>: unless the
  calculation for \<open>t2\<close> raises \<^verbatim>\<open>OverflowError\<close> (which cannot happen for a target up
  to \<open>2 ^ 900\<close> MB and a duration of at least \<open>1 / 2 ^ 100\<close> seconds), both
  calculations return; the value \<open>x1\<close> handed to \<^verbatim>\<open>int\<close> for \<open>t1\<close> is not larger than
  the value \<open>x2\<close> for \<open>t2\<close>, and the bitrates, their truncations, are ordered the same
  way. The two bitrates are equal only when \<open>x1\<close> and \<open>x2\<close> lie in one cell of the
  truncation: less than 1 apart, or less than 2 apart where the result is 0.
\<close>

theorem bitrate_monotone_in_target_size:
  assumes "0 < t1" "t1 < t2" "float_pos d"
  shows "(target_video_bitrate_kbps t2 d = Raise OverflowError
          \<or> (\<exists>bits1 per_second1 total1 x1 bits2 per_second2 total2 x2 v1 v2.
               float_of_int (t1 * 8 * 1024 * 1024) = Return bits1
             \<and> float_truediv bits1 d = Return per_second1
             \<and> float_truediv per_second1 (Num 1000) = Return total1
             \<and> float_mul (float_sub total1 (Num 128)) (to_float (95 / 100)) = Num x1
             \<and> float_of_int (t2 * 8 * 1024 * 1024) = Return bits2
             \<and> float_truediv bits2 d = Return per_second2
             \<and> float_truediv per_second2 (Num 1000) = Return total2
             \<and> float_mul (float_sub total2 (Num 128)) (to_float (95 / 100)) = Num x2
             \<and> v1 = (if 0 \<le> x1 then \<lfloor>x1\<rfloor> else \<lceil>x1\<rceil>)
             \<and> v2 = (if 0 \<le> x2 then \<lfloor>x2\<rfloor> else \<lceil>x2\<rceil>)
             \<and> target_video_bitrate_kbps t1 d = Return v1
             \<and> target_video_bitrate_kbps t2 d = Return v2
             \<and> x1 \<le> x2
             \<and> v1 \<le> v2
             \<and> (v1 = v2 \<longrightarrow> x2 - x1 < (if v2 = 0 then 2 else 1))))
         \<and> (\<forall>q. t2 \<le> 2 ^ 900 \<and> d = Num q \<and> 1 / 2 ^ 100 \<le> q \<longrightarrow>
                target_video_bitrate_kbps t2 d \<noteq> Raise OverflowError)"
proof -
  have t2: "0 < t2" using assms(1,2) by simp
  have range: "target_video_bitrate_kbps t2 d \<noteq> Raise OverflowError"
    if "t2 \<le> 2 ^ 900" "d = Num q" "1 / 2 ^ 100 \<le> q" for q
    using bitrate_in_float_range [OF t2 that(1,3)] that(2) by auto
  have "target_video_bitrate_kbps t2 d = Raise OverflowError
          \<or> (\<exists>bits1 per_second1 total1 x1 bits2 per_second2 total2 x2 v1 v2.
               float_of_int (t1 * 8 * 1024 * 1024) = Return bits1
             \<and> float_truediv bits1 d = Return per_second1
             \<and> float_truediv per_second1 (Num 1000) = Return total1
             \<and> float_mul (float_sub total1 (Num 128)) (to_float (95 / 100)) = Num x1
             \<and> float_of_int (t2 * 8 * 1024 * 1024) = Return bits2
             \<and> float_truediv bits2 d = Return per_second2
             \<and> float_truediv per_second2 (Num 1000) = Return total2
             \<and> float_mul (float_sub total2 (Num 128)) (to_float (95 / 100)) = Num x2
             \<and> v1 = (if 0 \<le> x1 then \<lfloor>x1\<rfloor> else \<lceil>x1\<rceil>)
             \<and> v2 = (if 0 \<le> x2 then \<lfloor>x2\<rfloor> else \<lceil>x2\<rceil>)
             \<and> target_video_bitrate_kbps t1 d = Return v1
             \<and> target_video_bitrate_kbps t2 d = Return v2
             \<and> x1 \<le> x2
             \<and> v1 \<le> v2
             \<and> (v1 = v2 \<longrightarrow> x2 - x1 < (if v2 = 0 then 2 else 1)))"
    (is "?overflow \<or> ?ordered")
    using bitrate_outcomes [OF t2 assms(3)]
  proof
    assume ?overflow
    then show ?thesis ..
  next
    assume "\<exists>x. scaled_video_bitrate t2 d = Return (Num x)
              \<and> target_video_bitrate_kbps t2 d = Return (if 0 \<le> x then \<lfloor>x\<rfloor> else \<lceil>x\<rceil>)"
    then obtain x2 where x2: "scaled_video_bitrate t2 d = Return (Num x2)"
      "target_video_bitrate_kbps t2 d = Return (if 0 \<le> x2 then \<lfloor>x2\<rfloor> else \<lceil>x2\<rceil>)"
      by blast
    have "t1 \<le> t2" using assms(2) by simp
    from scaled_video_bitrate_pair [OF assms(1) this assms(3) x2(1)] obtain a lo
      where a: "scaled_video_bitrate t1 d = Return a" "float_le (Num lo) a" "float_le a (Num x2)"
      by blast
    from a(2,3) obtain x1 where x1: "a = Num x1" "x1 \<le> x2" by (cases a) auto
    have v1: "target_video_bitrate_kbps t1 d = Return (if 0 \<le> x1 then \<lfloor>x1\<rfloor> else \<lceil>x1\<rceil>)"
      by (simp add: target_video_bitrate_kbps_def a(1) x1(1))
    from scaled_video_bitrate_steps [OF a(1)] x1(1) obtain bits1 per_second1 total1
      where s1: "float_of_int (t1 * 8 * 1024 * 1024) = Return bits1"
        "float_truediv bits1 d = Return per_second1"
        "float_truediv per_second1 (Num 1000) = Return total1"
        "float_mul (float_sub total1 (Num 128)) (to_float (95 / 100)) = Num x1"
      by blast
    from scaled_video_bitrate_steps [OF x2(1)] obtain bits2 per_second2 total2
      where s2: "float_of_int (t2 * 8 * 1024 * 1024) = Return bits2"
        "float_truediv bits2 d = Return per_second2"
        "float_truediv per_second2 (Num 1000) = Return total2"
        "float_mul (float_sub total2 (Num 128)) (to_float (95 / 100)) = Num x2"
      by blast
    note le = truncation_mono [OF x1(2)]
    have cell: "x2 - x1 < (if (if 0 \<le> x2 then \<lfloor>x2\<rfloor> else \<lceil>x2\<rceil>) = 0 then 2 else 1)"
      if "(if 0 \<le> x1 then \<lfloor>x1\<rfloor> else \<lceil>x1\<rceil>) = (if 0 \<le> x2 then \<lfloor>x2\<rfloor> else \<lceil>x2\<rceil>)"
      using x1(2) that by (rule truncation_cell)
    have ?ordered
      using s1 s2 v1 x2(2) x1(2) le cell by blast
    then show ?thesis ..
  qed
  then show ?thesis using range by blast
qed

theorem bitrate_monotone_in_target_size_witness:
  "(0::int) < 1 \<and> (1::int) < 80 \<and> float_pos (Num 600)
   \<and> target_video_bitrate_kbps 1 (Num 600) = Return (- 108)
   \<and> target_video_bitrate_kbps 80 (Num 600) = Return 940
   \<and> (\<exists>bits1 per_second1 total1 x1 bits2 per_second2 total2 x2 v1 v2.
               float_of_int (1 * 8 * 1024 * 1024) = Return bits1
             \<and> float_truediv bits1 (Num 600) = Return per_second1
             \<and> float_truediv per_second1 (Num 1000) = Return total1
             \<and> float_mul (float_sub total1 (Num 128)) (to_float (95 / 100)) = Num x1
             \<and> float_of_int (80 * 8 * 1024 * 1024) = Return bits2
             \<and> float_truediv bits2 (Num 600) = Return per_second2
             \<and> float_truediv per_second2 (Num 1000) = Return total2
             \<and> float_mul (float_sub total2 (Num 128)) (to_float (95 / 100)) = Num x2
             \<and> v1 = (if 0 \<le> x1 then \<lfloor>x1\<rfloor> else \<lceil>x1\<rceil>)
             \<and> v2 = (if 0 \<le> x2 then \<lfloor>x2\<rfloor> else \<lceil>x2\<rceil>)
             \<and> target_video_bitrate_kbps 1 (Num 600) = Return v1
             \<and> target_video_bitrate_kbps 80 (Num 600) = Return v2
             \<and> x1 \<le> x2
             \<and> v1 \<le> v2
             \<and> (v1 = v2 \<longrightarrow> x2 - x1 < (if v2 = 0 then 2 else 1)))"
proof -
  have h1: "(0::int) < 1" by simp
  have h2: "(1::int) < 80" by simp
  have h3: "float_pos (Num 600)" by simp
  have "target_video_bitrate_kbps 80 (Num 600) \<noteq> Raise OverflowError"
    by (simp add: bitrate_80_600)
  with conjunct1 [OF bitrate_monotone_in_target_size [OF h1 h2 h3]] show ?thesis
    using h1 h2 h3 bitrate_1_600 bitrate_80_600 by blast
qed

theorem bitrate_of_larger_target_overflows:
  "(0::int) < 1 \<and> (1::int) < 2 ^ 1001 \<and> float_pos (Num 600)
   \<and> target_video_bitrate_kbps 1 (Num 600) = Return (- 108)
   \<and> target_video_bitrate_kbps (2 ^ 1001) (Num 600) = Raise OverflowError"
proof -
  have a: "(0::int) < 1" by simp
  have b: "(1::int) < 2 ^ 1001" by (rule one_less_power) simp_all
  have c: "float_pos (Num 600)" by simp
  show ?thesis by (intro conjI a b c bitrate_1_600 bitrate_overflow_2_1001)
qed

text \<open>
  C4. When the input exists and its measured size in MB is at most \<^verbatim>\<open>target_size_mb\<close>
  (equality included), \<^verbatim>\<open>compress_video\<close> returns after the existence check, the
  size measurement and two messages: no external tool is started, no file changes, and a
  process whose top-level call ends this way exits with status 0.
\<close>

theorem small_input_returns_without_tools:
  assumes "files s input_file = Some n"
    and "int_truediv (int n) (1024 * 1024) = Return current_size_mb"
    and "float_le_int current_size_mb target_size_mb"
  shows "compress_video sys input_file output_file target_size_mb s =
           (Return (),
            \<lparr>files = files s,
             trace = trace s @
               [Path_exists input_file, Getsize input_file,
                Print (Current_size current_size_mb),
                Print (No_compression_needed target_size_mb)]\<rparr>)
         \<and> commands_run (trace (snd (compress_video sys input_file output_file target_size_mb s)))
             = commands_run (trace s)
         \<and> exit_status (fst (compress_video sys input_file output_file target_size_mb s)) = 0
         \<and> (input_file = input_video \<and> target_size_mb = target_size \<longrightarrow>
               process_status sys s = 0)"
proof -
  have "process_status sys s = 0" if "input_file = input_video" "target_size_mb = target_size"
    using main_small_input [of s n current_size_mb sys] assms that by simp
  then show ?thesis
    unfolding compress_video_small [OF assms]
    by (simp add: emit_def commands_run_append state_update_trace)
qed

theorem small_input_returns_without_tools_witness:
  "files \<lparr>files = [''in.mp4'' \<mapsto> 83886080], trace = []\<rparr> ''in.mp4'' = Some 83886080
   \<and> int_truediv (int 83886080) (1024 * 1024) = Return (Num 80)
   \<and> float_le_int (Num 80) 80
   \<and> compress_video (\<lambda>cmd fs. (Exited 0 [], fs)) ''in.mp4'' ''out.mp4'' 80
        \<lparr>files = [''in.mp4'' \<mapsto> 83886080], trace = []\<rparr>
      = (Return (),
         \<lparr>files = [''in.mp4'' \<mapsto> 83886080],
          trace = [Path_exists ''in.mp4'', Getsize ''in.mp4'', Print (Current_size (Num 80)),
                   Print (No_compression_needed 80)]\<rparr>)"
proof -
  have h1: "files \<lparr>files = [''in.mp4'' \<mapsto> 83886080], trace = []\<rparr> ''in.mp4'' = Some 83886080"
    by simp
  have h3: "float_le_int (Num 80) 80" by simp
  from conjunct1 [OF small_input_returns_without_tools [OF h1 size_80_mb h3,
      of "\<lambda>cmd fs. (Exited 0 [], fs)" "''out.mp4''"]]
  show ?thesis using h1 size_80_mb h3 by simp
qed

text \<open>
  C5. When the input path does not exist, \<^verbatim>\<open>compress_video\<close> prints the error and
  calls \<^verbatim>\<open>sys.exit(1)\<close> right after the existence check: no external tool is started
  and the exit status is 1.
\<close>

theorem missing_input_exits_without_tools:
  assumes "files s input_file = None"
  shows "compress_video sys input_file output_file target_size_mb s =
           (SysExit 1,
            \<lparr>files = files s,
             trace = trace s @ [Path_exists input_file, Print (Input_not_found input_file)]\<rparr>)
         \<and> commands_run (trace (snd (compress_video sys input_file output_file target_size_mb s)))
             = commands_run (trace s)
         \<and> exit_status (fst (compress_video sys input_file output_file target_size_mb s)) = 1
         \<and> (input_file = input_video \<longrightarrow> process_status sys s = 1)"
proof -
  have "process_status sys s = 1" if "input_file = input_video"
    using main_missing_input [of s sys] assms that by simp
  then show ?thesis
    unfolding compress_video_missing [OF assms]
    by (simp add: emit_def commands_run_append state_update_trace)
qed

theorem missing_input_exits_without_tools_witness:
  "files \<lparr>files = Map.empty, trace = []\<rparr> ''does/not/exist.mp4'' = None
   \<and> compress_video (\<lambda>cmd fs. (Exited 0 [], fs)) ''does/not/exist.mp4'' ''out.mp4'' 80
        \<lparr>files = Map.empty, trace = []\<rparr>
      = (SysExit 1,
         \<lparr>files = Map.empty,
          trace = [Path_exists ''does/not/exist.mp4'',
                   Print (Input_not_found ''does/not/exist.mp4'')]\<rparr>)"
proof -
  have h: "files \<lparr>files = Map.empty, trace = []\<rparr> ''does/not/exist.mp4'' = None" by simp
  from conjunct1 [OF missing_input_exits_without_tools
      [OF h, of "\<lambda>cmd fs. (Exited 0 [], fs)" "''out.mp4''" 80]]
  show ?thesis using h by simp
qed



text \<open>
  C8. \<^verbatim>\<open>get_file_size_mb\<close> on a missing path lets the \<^verbatim>\<open>OSError\<close> of
  \<^verbatim>\<open>os.path.getsize\<close> through; on an existing path of \<open>n\<close> bytes (a file size is below
  \<open>2 ^ 63\<close>) it returns the float nearest to \<open>n / 1048576\<close>, which is that quotient
  exactly for every size below \<open>2 ^ 53\<close> bytes.
\<close>

theorem get_file_size_mb_contract:
  "(files s file_path = None \<longrightarrow> fst (get_file_size_mb file_path s) = Raise OSError)
   \<and> (files s file_path = Some n \<and> n < 2 ^ 63 \<longrightarrow>
        fst (get_file_size_mb file_path s) = Return (Num (round_binary64 (of_nat n / 1048576))))
   \<and> (n < 2 ^ 53 \<longrightarrow> round_binary64 (of_nat n / 1048576) = of_nat n / 1048576)"
  using int_truediv_mb [of n] mb_exact [of n]
  by (auto simp: get_file_size_mb_missing get_file_size_mb_existing)

theorem get_file_size_mb_contract_witness:
  "files \<lparr>files = [''in.mp4'' \<mapsto> 83886080], trace = []\<rparr> ''gone.mp4'' = None
   \<and> fst (get_file_size_mb ''gone.mp4'' \<lparr>files = [''in.mp4'' \<mapsto> 83886080], trace = []\<rparr>)
       = Raise OSError
   \<and> files \<lparr>files = [''in.mp4'' \<mapsto> 83886080], trace = []\<rparr> ''in.mp4'' = Some 83886080
   \<and> (83886080::nat) < 2 ^ 53
   \<and> fst (get_file_size_mb ''in.mp4'' \<lparr>files = [''in.mp4'' \<mapsto> 83886080], trace = []\<rparr>)
       = Return (Num 80)"
  using get_file_size_mb_contract
      [of "\<lparr>files = [''in.mp4'' \<mapsto> 83886080], trace = []\<rparr>" "''gone.mp4''" 83886080]
    get_file_size_mb_contract
      [of "\<lparr>files = [''in.mp4'' \<mapsto> 83886080], trace = []\<rparr>" "''in.mp4''" 83886080]
  by simp

text \<open>
  C7. Positive inputs can give a bitrate that is negative (1 MB over 600 seconds: \<open>- 108\<close>)
  or zero (1 MB over 65.5 seconds). Whatever integer the calculation returns,
  \<^verbatim>\<open>compress_video\<close> starts the encoder with it: the argument after \<^verbatim>\<open>-b:v\<close> is
  \<^verbatim>\<open>str\<close> of that integer followed by \<^verbatim>\<open>k\<close>, with no test of its sign in between.
\<close>

theorem nonpositive_bitrate_reaches_encoder:
  assumes "files s input_file = Some n"
    and "int_truediv (int n) (1024 * 1024) = Return current_size_mb"
    and "\<not> float_le_int current_size_mb target_size_mb"
    and "sys (ffprobe_cmd input_file) (files s) = (Exited 0 out, fs1)"
    and "py_float (py_strip out) = Return duration"
    and "target_video_bitrate_kbps target_size_mb duration = Return video_kbps"
  shows "(0::int) < 1 \<and> float_pos (Num 600) \<and> float_pos (Num (131 / 2))
         \<and> target_video_bitrate_kbps 1 (Num 600) = Return (- 108)
         \<and> target_video_bitrate_kbps 1 (Num (131 / 2)) = Return 0
         \<and> (\<exists>tr. trace (snd (compress_video sys input_file output_file target_size_mb s))
                = trace s @
                  [Path_exists input_file, Getsize input_file,
                   Print (Current_size current_size_mb),
                   Run (ffprobe_cmd input_file), Print (Duration duration),
                   Print (Target_video_bitrate video_kbps), Print (Target_audio_bitrate 128),
                   Print Compressing,
                   Run (ffmpeg_cmd input_file video_kbps output_file)] @ tr)
         \<and> ffmpeg_cmd input_file video_kbps output_file ! 5 = ''-b:v''
         \<and> ffmpeg_cmd input_file video_kbps output_file ! 6 = str_of_int video_kbps @ ''k''"
proof -
  define s6 where "s6 = \<lparr>files = fs1,
              trace = trace s @
                [Path_exists input_file, Getsize input_file, Print (Current_size current_size_mb),
                 Run (ffprobe_cmd input_file), Print (Duration duration),
                 Print (Target_video_bitrate video_kbps), Print (Target_audio_bitrate 128),
                 Print Compressing]\<rparr>"
  have cv: "compress_video sys input_file output_file target_size_mb s
             = encode_and_report sys input_file output_file current_size_mb video_kbps s6"
    unfolding s6_def using assms by (rule compress_video_encoding [where sys = sys])
  obtain tr where "trace (snd (encode_and_report sys input_file output_file current_size_mb
      video_kbps s6)) = trace s6 @ Run (ffmpeg_cmd input_file video_kbps output_file) # tr"
    using encode_and_report_trace by blast
  then have "trace (snd (compress_video sys input_file output_file target_size_mb s))
                = trace s @
                  [Path_exists input_file, Getsize input_file,
                   Print (Current_size current_size_mb),
                   Run (ffprobe_cmd input_file), Print (Duration duration),
                   Print (Target_video_bitrate video_kbps), Print (Target_audio_bitrate 128),
                   Print Compressing,
                   Run (ffmpeg_cmd input_file video_kbps output_file)] @ tr"
    by (simp add: cv s6_def)
  then show ?thesis
    by (auto simp: bitrate_1_600 bitrate_1_65 ffmpeg_cmd_def)
qed

theorem nonpositive_bitrate_reaches_encoder_witness:
  "files \<lparr>files = [''in.mp4'' \<mapsto> 2097152], trace = []\<rparr> ''in.mp4'' = Some 2097152
   \<and> int_truediv (int 2097152) (1024 * 1024) = Return (Num 2)
   \<and> \<not> float_le_int (Num 2) 1
   \<and> (\<lambda>cmd fs. (Exited 0 ''600.000000\<newline>'', fs)) (ffprobe_cmd ''in.mp4'')
        (files \<lparr>files = [''in.mp4'' \<mapsto> 2097152], trace = []\<rparr>)
       = (Exited 0 ''600.000000\<newline>'', [''in.mp4'' \<mapsto> 2097152])
   \<and> py_float (py_strip ''600.000000\<newline>'') = Return (Num 600)
   \<and> target_video_bitrate_kbps 1 (Num 600) = Return (- 108)
   \<and> (\<exists>tr. trace (snd (compress_video (\<lambda>cmd fs. (Exited 0 ''600.000000\<newline>'', fs))
                          ''in.mp4'' ''out.mp4'' 1
                          \<lparr>files = [''in.mp4'' \<mapsto> 2097152], trace = []\<rparr>))
          = [Path_exists ''in.mp4'', Getsize ''in.mp4'', Print (Current_size (Num 2)),
             Run (ffprobe_cmd ''in.mp4''), Print (Duration (Num 600)),
             Print (Target_video_bitrate (- 108)), Print (Target_audio_bitrate 128),
             Print Compressing,
             Run (ffmpeg_cmd ''in.mp4'' (- 108) ''out.mp4'')] @ tr)
   \<and> ffmpeg_cmd ''in.mp4'' (- 108) ''out.mp4'' ! 6 = ''-108k''"
proof -
  have h1: "files \<lparr>files = [''in.mp4'' \<mapsto> 2097152], trace = []\<rparr> ''in.mp4'' = Some 2097152"
    by simp
  have h3: "\<not> float_le_int (Num 2) 1" by simp
  have h4: "(\<lambda>cmd fs. (Exited 0 ''600.000000\<newline>'', fs)) (ffprobe_cmd ''in.mp4'')
        (files \<lparr>files = [''in.mp4'' \<mapsto> 2097152], trace = []\<rparr>)
       = (Exited 0 ''600.000000\<newline>'', [''in.mp4'' \<mapsto> 2097152])"
    by simp
  have h5: "py_float (py_strip ''600.000000\<newline>'') = Return (Num 600)"
    by (simp only: strip_probe_output float_probe_output)
  note t = nonpositive_bitrate_reaches_encoder
    [where sys = "\<lambda>cmd fs. (Exited 0 ''600.000000\<newline>'', fs)" and output_file = "''out.mp4''",
      OF h1 size_2_mb h3 h4 h5 bitrate_1_600]
  have r: "\<exists>tr. trace (snd (compress_video (\<lambda>cmd fs. (Exited 0 ''600.000000\<newline>'', fs))
                          ''in.mp4'' ''out.mp4'' 1
                          \<lparr>files = [''in.mp4'' \<mapsto> 2097152], trace = []\<rparr>))
          = [Path_exists ''in.mp4'', Getsize ''in.mp4'', Print (Current_size (Num 2)),
             Run (ffprobe_cmd ''in.mp4''), Print (Duration (Num 600)),
             Print (Target_video_bitrate (- 108)), Print (Target_audio_bitrate 128),
             Print Compressing,
             Run (ffmpeg_cmd ''in.mp4'' (- 108) ''out.mp4'')] @ tr"
    using t by simp
  have k: "ffmpeg_cmd ''in.mp4'' (- 108) ''out.mp4'' ! 6 = ''-108k''"
    using t by (simp add: str_minus_108)
  show ?thesis
    by (intro conjI h1 size_2_mb h3 h4 h5 bitrate_1_600 r k)
qed

text \<open>
  C9. When input measurement, probe, calculation and encoder have all succeeded, and the
  output file exists afterwards, \<^verbatim>\<open>compress_video\<close> measures the output in the files
  as the encoder left them and reports
  \<^verbatim>\<open>(current_size_mb - compressed_size_mb) / current_size_mb * 100\<close>, where
  \<^verbatim>\<open>current_size_mb\<close> is the measurement of the input taken before the probe. The
  target size does not enter the reported value.
\<close>

theorem reduction_reported_from_measured_output:
  assumes "files s input_file = Some n"
    and "int_truediv (int n) (1024 * 1024) = Return current_size_mb"
    and "\<not> float_le_int current_size_mb target_size_mb"
    and "sys (ffprobe_cmd input_file) (files s) = (Exited 0 out, fs1)"
    and "py_float (py_strip out) = Return duration"
    and "target_video_bitrate_kbps target_size_mb duration = Return video_kbps"
    and "sys (ffmpeg_cmd input_file video_kbps output_file) fs1 = (Exited 0 out2, fs2)"
    and "fs2 output_file = Some m"
    and "int_truediv (int m) (1024 * 1024) = Return compressed_size_mb"
    and "float_truediv (float_sub current_size_mb compressed_size_mb) current_size_mb
           = Return ratio"
  shows "compress_video sys input_file output_file target_size_mb s =
           (Return (),
            \<lparr>files = fs2,
             trace = trace s @
               [Path_exists input_file, Getsize input_file,
                Print (Current_size current_size_mb),
                Run (ffprobe_cmd input_file), Print (Duration duration),
                Print (Target_video_bitrate video_kbps), Print (Target_audio_bitrate 128),
                Print Compressing,
                Run (ffmpeg_cmd input_file video_kbps output_file),
                Getsize output_file, Print Compression_complete,
                Print (Original_size current_size_mb), Print (Compressed_size compressed_size_mb),
                Print (Size_reduction (float_mul ratio (Num 100))),
                Print (Output_file output_file)]\<rparr>)"
proof -
  define s6 where "s6 = \<lparr>files = fs1,
              trace = trace s @
                [Path_exists input_file, Getsize input_file, Print (Current_size current_size_mb),
                 Run (ffprobe_cmd input_file), Print (Duration duration),
                 Print (Target_video_bitrate video_kbps), Print (Target_audio_bitrate 128),
                 Print Compressing]\<rparr>"
  have cv: "compress_video sys input_file output_file target_size_mb s
             = encode_and_report sys input_file output_file current_size_mb video_kbps s6"
    unfolding s6_def using assms(1-6) by (rule compress_video_encoding [where sys = sys])
  have enc: "sys (ffmpeg_cmd input_file video_kbps output_file) (files s6) = (Exited 0 out2, fs2)"
    using assms(7) by (simp add: s6_def)
  show ?thesis
    unfolding cv encode_and_report_done [where sys = sys, OF enc assms(8-10)]
    by (simp add: s6_def)
qed

theorem reduction_reported_from_measured_output_witness:
  "files \<lparr>files = [''in.mp4'' \<mapsto> 104857600], trace = []\<rparr> ''in.mp4'' = Some 104857600
   \<and> int_truediv (int 104857600) (1024 * 1024) = Return (Num 100)
   \<and> \<not> float_le_int (Num 100) 80
   \<and> (\<lambda>cmd fs. if hd cmd = ''ffprobe'' then (Exited 0 ''600.000000\<newline>'', fs)
                 else (Exited 0 [], fs(''out.mp4'' \<mapsto> 41943040)))
        (ffprobe_cmd ''in.mp4'') (files \<lparr>files = [''in.mp4'' \<mapsto> 104857600], trace = []\<rparr>)
       = (Exited 0 ''600.000000\<newline>'', [''in.mp4'' \<mapsto> 104857600])
   \<and> py_float (py_strip ''600.000000\<newline>'') = Return (Num 600)
   \<and> target_video_bitrate_kbps 80 (Num 600) = Return 940
   \<and> (\<lambda>cmd fs. if hd cmd = ''ffprobe'' then (Exited 0 ''600.000000\<newline>'', fs)
                 else (Exited 0 [], fs(''out.mp4'' \<mapsto> 41943040)))
        (ffmpeg_cmd ''in.mp4'' 940 ''out.mp4'') [''in.mp4'' \<mapsto> 104857600 :: nat]
       = (Exited 0 [], [''in.mp4'' \<mapsto> 104857600, ''out.mp4'' \<mapsto> 41943040])
   \<and> [''in.mp4'' \<mapsto> 104857600, ''out.mp4'' \<mapsto> 41943040 :: nat] ''out.mp4''
       = Some 41943040
   \<and> int_truediv (int 41943040) (1024 * 1024) = Return (Num 40)
   \<and> float_truediv (float_sub (Num 100) (Num 40)) (Num 100)
       = Return (Num (5404319552844595 / 2 ^ 53))
   \<and> float_mul (Num (5404319552844595 / 2 ^ 53)) (Num 100) = Num 60
   \<and> compress_video
        (\<lambda>cmd fs. if hd cmd = ''ffprobe'' then (Exited 0 ''600.000000\<newline>'', fs)
                 else (Exited 0 [], fs(''out.mp4'' \<mapsto> 41943040)))
        ''in.mp4'' ''out.mp4'' 80 \<lparr>files = [''in.mp4'' \<mapsto> 104857600], trace = []\<rparr>
      = (Return (),
         \<lparr>files = [''in.mp4'' \<mapsto> 104857600, ''out.mp4'' \<mapsto> 41943040],
          trace =
            [Path_exists ''in.mp4'', Getsize ''in.mp4'', Print (Current_size (Num 100)),
             Run (ffprobe_cmd ''in.mp4''), Print (Duration (Num 600)),
             Print (Target_video_bitrate 940), Print (Target_audio_bitrate 128),
             Print Compressing,
             Run (ffmpeg_cmd ''in.mp4'' 940 ''out.mp4''),
             Getsize ''out.mp4'', Print Compression_complete,
             Print (Original_size (Num 100)), Print (Compressed_size (Num 40)),
             Print (Size_reduction (Num 60)),
             Print (Output_file ''out.mp4'')]\<rparr>)"
proof -
  let ?sys = "\<lambda>cmd fs. if hd cmd = ''ffprobe'' then (Exited 0 ''600.000000\<newline>'', fs)
                 else (Exited 0 [], fs(''out.mp4'' \<mapsto> 41943040 :: nat))"
  have h1: "files \<lparr>files = [''in.mp4'' \<mapsto> 104857600], trace = []\<rparr> ''in.mp4''
              = Some 104857600"
    by simp
  have h3: "\<not> float_le_int (Num 100) 80" by simp
  have h4: "?sys (ffprobe_cmd ''in.mp4'')
              (files \<lparr>files = [''in.mp4'' \<mapsto> 104857600], trace = []\<rparr>)
       = (Exited 0 ''600.000000\<newline>'', [''in.mp4'' \<mapsto> 104857600])"
    by (simp add: ffprobe_cmd_def)
  have h5: "py_float (py_strip ''600.000000\<newline>'') = Return (Num 600)"
    by (simp only: strip_probe_output float_probe_output)
  have h7: "?sys (ffmpeg_cmd ''in.mp4'' 940 ''out.mp4'') [''in.mp4'' \<mapsto> 104857600 :: nat]
       = (Exited 0 [], [''in.mp4'' \<mapsto> 104857600, ''out.mp4'' \<mapsto> 41943040])"
    by (simp add: ffmpeg_cmd_def)
  have h8: "[''in.mp4'' \<mapsto> 104857600, ''out.mp4'' \<mapsto> 41943040 :: nat] ''out.mp4''
              = Some 41943040"
    by simp
  have h10: "float_truediv (float_sub (Num 100) (Num 40)) (Num 100)
       = Return (Num (5404319552844595 / 2 ^ 53))"
    by (simp only: saved_100_40 ratio_100_40)
  note t = reduction_reported_from_measured_output
    [where sys = ?sys, OF h1 size_100_mb h3 h4 h5 bitrate_80_600 h7 h8 size_40_mb h10]
  have r: "compress_video ?sys ''in.mp4'' ''out.mp4'' 80
             \<lparr>files = [''in.mp4'' \<mapsto> 104857600], trace = []\<rparr>
      = (Return (),
         \<lparr>files = [''in.mp4'' \<mapsto> 104857600, ''out.mp4'' \<mapsto> 41943040],
          trace =
            [Path_exists ''in.mp4'', Getsize ''in.mp4'', Print (Current_size (Num 100)),
             Run (ffprobe_cmd ''in.mp4''), Print (Duration (Num 600)),
             Print (Target_video_bitrate 940), Print (Target_audio_bitrate 128),
             Print Compressing,
             Run (ffmpeg_cmd ''in.mp4'' 940 ''out.mp4''),
             Getsize ''out.mp4'', Print Compression_complete,
             Print (Original_size (Num 100)), Print (Compressed_size (Num 40)),
             Print (Size_reduction (Num 60)),
             Print (Output_file ''out.mp4'')]\<rparr>)"
    using t by (simp only: state.select_convs append_Nil percent_100_40)
  show ?thesis
    by (intro conjI h1 size_100_mb h3 h4 h5 bitrate_80_600 h7 h8 size_40_mb h10
        percent_100_40 r)
qed

text \<open>
  C10. When the encoder ends with a non-zero return code, \<^verbatim>\<open>compress_video\<close> prints
  the error and calls \<^verbatim>\<open>sys.exit(1)\<close>: after the one encoder run the only event is
  that message, so the output is not measured, no summary is printed and the encoder is
  not started again, and the files stay as the encoder left them.
\<close>

theorem encoder_failure_exits_without_summary:
  assumes "files s input_file = Some n"
    and "int_truediv (int n) (1024 * 1024) = Return current_size_mb"
    and "\<not> float_le_int current_size_mb target_size_mb"
    and "sys (ffprobe_cmd input_file) (files s) = (Exited 0 out, fs1)"
    and "py_float (py_strip out) = Return duration"
    and "target_video_bitrate_kbps target_size_mb duration = Return video_kbps"
    and "sys (ffmpeg_cmd input_file video_kbps output_file) fs1 = (Exited rc out2, fs2)"
    and "rc \<noteq> 0"
  shows "compress_video sys input_file output_file target_size_mb s =
           (SysExit 1,
            \<lparr>files = fs2,
             trace = trace s @
               [Path_exists input_file, Getsize input_file,
                Print (Current_size current_size_mb),
                Run (ffprobe_cmd input_file), Print (Duration duration),
                Print (Target_video_bitrate video_kbps), Print (Target_audio_bitrate 128),
                Print Compressing,
                Run (ffmpeg_cmd input_file video_kbps output_file),
                Print (Error_during_compression rc)]\<rparr>)
         \<and> exit_status (fst (compress_video sys input_file output_file target_size_mb s)) = 1"
proof -
  define s6 where "s6 = \<lparr>files = fs1,
              trace = trace s @
                [Path_exists input_file, Getsize input_file, Print (Current_size current_size_mb),
                 Run (ffprobe_cmd input_file), Print (Duration duration),
                 Print (Target_video_bitrate video_kbps), Print (Target_audio_bitrate 128),
                 Print Compressing]\<rparr>"
  have cv: "compress_video sys input_file output_file target_size_mb s
             = encode_and_report sys input_file output_file current_size_mb video_kbps s6"
    unfolding s6_def using assms(1-6) by (rule compress_video_encoding [where sys = sys])
  have enc: "sys (ffmpeg_cmd input_file video_kbps output_file) (files s6) = (Exited rc out2, fs2)"
    using assms(7) by (simp add: s6_def)
  show ?thesis
    unfolding cv encode_and_report_failed [where sys = sys, OF enc assms(8)]
    by (simp add: s6_def)
qed

theorem encoder_failure_exits_without_summary_witness:
  "files \<lparr>files = [''in.mp4'' \<mapsto> 104857600], trace = []\<rparr> ''in.mp4'' = Some 104857600
   \<and> int_truediv (int 104857600) (1024 * 1024) = Return (Num 100)
   \<and> \<not> float_le_int (Num 100) 80
   \<and> (\<lambda>cmd fs. if hd cmd = ''ffprobe'' then (Exited 0 ''600.000000\<newline>'', fs)
                 else (Exited 1 [], fs(''out.mp4'' \<mapsto> 4096)))
        (ffprobe_cmd ''in.mp4'') (files \<lparr>files = [''in.mp4'' \<mapsto> 104857600], trace = []\<rparr>)
       = (Exited 0 ''600.000000\<newline>'', [''in.mp4'' \<mapsto> 104857600])
   \<and> py_float (py_strip ''600.000000\<newline>'') = Return (Num 600)
   \<and> target_video_bitrate_kbps 80 (Num 600) = Return 940
   \<and> (\<lambda>cmd fs. if hd cmd = ''ffprobe'' then (Exited 0 ''600.000000\<newline>'', fs)
                 else (Exited 1 [], fs(''out.mp4'' \<mapsto> 4096)))
        (ffmpeg_cmd ''in.mp4'' 940 ''out.mp4'') [''in.mp4'' \<mapsto> 104857600 :: nat]
       = (Exited 1 [], [''in.mp4'' \<mapsto> 104857600, ''out.mp4'' \<mapsto> 4096])
   \<and> (1::int) \<noteq> 0
   \<and> compress_video
        (\<lambda>cmd fs. if hd cmd = ''ffprobe'' then (Exited 0 ''600.000000\<newline>'', fs)
                 else (Exited 1 [], fs(''out.mp4'' \<mapsto> 4096)))
        ''in.mp4'' ''out.mp4'' 80 \<lparr>files = [''in.mp4'' \<mapsto> 104857600], trace = []\<rparr>
      = (SysExit 1,
         \<lparr>files = [''in.mp4'' \<mapsto> 104857600, ''out.mp4'' \<mapsto> 4096],
          trace =
            [Path_exists ''in.mp4'', Getsize ''in.mp4'', Print (Current_size (Num 100)),
             Run (ffprobe_cmd ''in.mp4''), Print (Duration (Num 600)),
             Print (Target_video_bitrate 940), Print (Target_audio_bitrate 128),
             Print Compressing,
             Run (ffmpeg_cmd ''in.mp4'' 940 ''out.mp4''),
             Print (Error_during_compression 1)]\<rparr>)"
proof -
  let ?sys = "\<lambda>cmd fs. if hd cmd = ''ffprobe'' then (Exited 0 ''600.000000\<newline>'', fs)
                 else (Exited 1 [], fs(''out.mp4'' \<mapsto> 4096 :: nat))"
  have h1: "files \<lparr>files = [''in.mp4'' \<mapsto> 104857600], trace = []\<rparr> ''in.mp4''
              = Some 104857600"
    by simp
  have h3: "\<not> float_le_int (Num 100) 80" by simp
  have h4: "?sys (ffprobe_cmd ''in.mp4'')
              (files \<lparr>files = [''in.mp4'' \<mapsto> 104857600], trace = []\<rparr>)
       = (Exited 0 ''600.000000\<newline>'', [''in.mp4'' \<mapsto> 104857600])"
    by (simp add: ffprobe_cmd_def)
  have h5: "py_float (py_strip ''600.000000\<newline>'') = Return (Num 600)"
    by (simp only: strip_probe_output float_probe_output)
  have h7: "?sys (ffmpeg_cmd ''in.mp4'' 940 ''out.mp4'') [''in.mp4'' \<mapsto> 104857600 :: nat]
       = (Exited 1 [], [''in.mp4'' \<mapsto> 104857600, ''out.mp4'' \<mapsto> 4096])"
    by (simp add: ffmpeg_cmd_def)
  have h8: "(1::int) \<noteq> 0" by simp
  note t = conjunct1 [OF encoder_failure_exits_without_summary
    [where sys = ?sys, OF h1 size_100_mb h3 h4 h5 bitrate_80_600 h7 h8]]
  have r: "compress_video ?sys ''in.mp4'' ''out.mp4'' 80
             \<lparr>files = [''in.mp4'' \<mapsto> 104857600], trace = []\<rparr>
      = (SysExit 1,
         \<lparr>files = [''in.mp4'' \<mapsto> 104857600, ''out.mp4'' \<mapsto> 4096],
          trace =
            [Path_exists ''in.mp4'', Getsize ''in.mp4'', Print (Current_size (Num 100)),
             Run (ffprobe_cmd ''in.mp4''), Print (Duration (Num 600)),
             Print (Target_video_bitrate 940), Print (Target_audio_bitrate 128),
             Print Compressing,
             Run (ffmpeg_cmd ''in.mp4'' 940 ''out.mp4''),
             Print (Error_during_compression 1)]\<rparr>)"
    using t by (simp only: state.select_convs append_Nil)
  show ?thesis
    by (intro conjI h1 size_100_mb h3 h4 h5 bitrate_80_600 h7 h8 r)
qed

end
